theory Spec2Isabelle
  imports Main
begin

text \<open>
  The program is a forwarding HTTP proxy written in Go (\<^verbatim>\<open>main.go\<close>): the handler
  \<^verbatim>\<open>redirectHandler\<close> logs the inbound request, resolves its URL against the configured
  target, copies and changes the headers, sends the new request upstream, logs the
  response and relays it to the client. This theory embeds the handler and the two
  logging functions, together with the parts of the Go standard library they call, and
  proves the properties claimed of them.
\<close>

section \<open>Bytes and strings\<close>

text \<open>
  A Go \<^verbatim>\<open>string\<close> or \<^verbatim>\<open>[]byte\<close> is a \<^typ>\<open>string\<close> (a list of 8-bit characters);
  byte comparisons such as \<^verbatim>\<open>'a' <= c && c <= 'z'\<close> are comparisons of the byte values.
\<close>

definition byte :: "char \<Rightarrow> nat" where
  "byte c = of_char c"

definition isLowerAZ :: "char \<Rightarrow> bool" where
  "isLowerAZ c \<longleftrightarrow> byte CHR ''a'' \<le> byte c \<and> byte c \<le> byte CHR ''z''"

definition isUpperAZ :: "char \<Rightarrow> bool" where
  "isUpperAZ c \<longleftrightarrow> byte CHR ''A'' \<le> byte c \<and> byte c \<le> byte CHR ''Z''"

definition isDigit :: "char \<Rightarrow> bool" where
  "isDigit c \<longleftrightarrow> byte CHR ''0'' \<le> byte c \<and> byte c \<le> byte CHR ''9''"

text \<open>\<^verbatim>\<open>const toLower = 'a' - 'A'\<close>; \<^verbatim>\<open>c -= toLower\<close> and \<^verbatim>\<open>c += toLower\<close> on a byte.\<close>

definition subToLower :: "char \<Rightarrow> char" where
  "subToLower c = char_of (byte c - (byte CHR ''a'' - byte CHR ''A''))"

definition addToLower :: "char \<Rightarrow> char" where
  "addToLower c = char_of (byte c + (byte CHR ''a'' - byte CHR ''A''))"

section \<open>The standard library's header map (net/http, net/textproto)\<close>

text \<open>
  \<^verbatim>\<open>http.Header\<close> is \<^verbatim>\<open>map[string][]string\<close>. Its methods \<^verbatim>\<open>Add\<close> and \<^verbatim>\<open>Set\<close> file
  every value under \<^verbatim>\<open>textproto.CanonicalMIMEHeaderKey(key)\<close>. These functions belong to
  the Go standard library, not to the repository; they are modelled here from their
  documented behaviour: the first letter and every letter after a hyphen become upper
  case, the other letters lower case, and a key holding a space or any byte that is not
  a token byte of RFC 7230 is returned as it is.
\<close>

type_synonym Header = "string \<rightharpoonup> string list"

definition validHeaderFieldByte :: "char \<Rightarrow> bool" where
  "validHeaderFieldByte c \<longleftrightarrow>
     isLowerAZ c \<or> isUpperAZ c \<or> isDigit c \<or>
     c \<in> set ''!#$%&*+-.^_|~'' \<or> c = CHR 0x27 \<or> c = CHR 0x60"

fun canonicalMIMEHeaderKey :: "bool \<Rightarrow> string \<Rightarrow> string" where
  "canonicalMIMEHeaderKey upper [] = []"
| "canonicalMIMEHeaderKey upper (c # cs) =
     (let c' = (if upper \<and> isLowerAZ c then subToLower c
                else if \<not> upper \<and> isUpperAZ c then addToLower c
                else c)
      in c' # canonicalMIMEHeaderKey (c' = CHR ''-'') cs)"

definition CanonicalMIMEHeaderKey :: "string \<Rightarrow> string" where
  "CanonicalMIMEHeaderKey s =
     (if list_all validHeaderFieldByte s then canonicalMIMEHeaderKey True s else s)"

text \<open>\<^verbatim>\<open>h[key] = append(h[key], value)\<close>: a missing key reads as the nil slice.\<close>

definition values_of :: "Header \<Rightarrow> string \<Rightarrow> string list" where
  "values_of h key = (case h key of None \<Rightarrow> [] | Some vs \<Rightarrow> vs)"

definition Header_Add :: "Header \<Rightarrow> string \<Rightarrow> string \<Rightarrow> Header" where
  "Header_Add h key v =
     (let k = CanonicalMIMEHeaderKey key in h(k \<mapsto> values_of h k @ [v]))"

definition Header_Set :: "Header \<Rightarrow> string \<Rightarrow> string \<Rightarrow> Header" where
  "Header_Set h key v = h(CanonicalMIMEHeaderKey key \<mapsto> [v])"

section \<open>Header transformation of \<^verbatim>\<open>redirectHandler\<close> (main.go, lines 107 to 119)\<close>

text \<open>
  The inner loop \<^verbatim>\<open>for _, value := range values\<close> of lines 109 to 116, for one key
  \<open>name\<close> of the inbound map: \<open>h\<close> is \<^verbatim>\<open>proxyReq.Header\<close>.
\<close>

fun copyValues :: "string \<Rightarrow> string list \<Rightarrow> Header \<Rightarrow> Header" where
  "copyValues name [] h = h"
| "copyValues name (v # vs) h =
     copyValues name vs
       (if name = ''User-Agent'' then Header_Set h name ''MyCustomUserAgent''
        else Header_Add h name v)"

text \<open>
  The outer loop \<^verbatim>\<open>for name, values := range r.Header\<close> of line 108. Go leaves the order
  in which \<^verbatim>\<open>range\<close> visits the keys of a map unspecified, so the order is an argument:
  \<open>names\<close> lists the keys in the order of the visit. A visit order of the map \<open>src\<close> lists
  each of its keys once (\<open>range_order\<close>).
\<close>

definition range_order :: "Header \<Rightarrow> string list \<Rightarrow> bool" where
  "range_order src names \<longleftrightarrow> distinct names \<and> set names = dom src"

fun copyHeader :: "Header \<Rightarrow> string list \<Rightarrow> Header \<Rightarrow> Header" where
  "copyHeader src [] h = h"
| "copyHeader src (name # names) h =
     copyHeader src names (copyValues name (values_of src name) h)"

text \<open>
  Lines 107 to 119: the copy into \<open>h\<close>, the header of the new request (which
  \<^verbatim>\<open>http.NewRequest\<close> creates empty), then line 119.
\<close>

definition transformHeader :: "Header \<Rightarrow> string list \<Rightarrow> Header \<Rightarrow> Header" where
  "transformHeader src names h =
     Header_Set (copyHeader src names h) ''X-Added-Header'' ''HeaderValue''"

text \<open>
  A header map has canonical keys when every key is its own canonical form. The maps
  that Go's server and client read from the wire are built with canonicalised keys, so
  they have this property.
\<close>

definition canonical_keys :: "Header \<Rightarrow> bool" where
  "canonical_keys h \<longleftrightarrow> (\<forall>k \<in> dom h. CanonicalMIMEHeaderKey k = k)"

text \<open>
  Header names are compared without regard to letter case on the wire; \<open>lowerByte\<close> is
  the ASCII lower-casing used below to say that two names differ in case only.
\<close>

definition lowerByte :: "char \<Rightarrow> char" where
  "lowerByte c = (if isUpperAZ c then addToLower c else c)"

definition sameNameIgnoringCase :: "string \<Rightarrow> string \<Rightarrow> bool" where
  "sameNameIgnoringCase a b \<longleftrightarrow> map lowerByte a = map lowerByte b"

section \<open>Errors\<close>

text \<open>
  A Go \<^verbatim>\<open>error\<close> value: \<^verbatim>\<open>errors.New\<close>, \<^verbatim>\<open>fmt.Errorf\<close> (kept as its format and
  arguments), the error types of net/url, and errors of the network, which come from
  outside the program.
\<close>

datatype error =
    errorString string
  | Errorf string "string list"
  | EscapeError string
  | InvalidHostError string
  | url_Error string string error
  | net_Error string

section \<open>The standard library's URLs (net/url)\<close>

text \<open>
  The handler calls \<^verbatim>\<open>url.Parse\<close>, \<^verbatim>\<open>(*URL).ResolveReference\<close> and \<^verbatim>\<open>(*URL).String\<close>.
  They belong to the Go standard library, not to the repository, and are modelled here
  after the library's algorithm (as of Go 1.19 to 1.22): splitting off fragment, scheme,
  query and authority, percent-decoding of host, user information and path, removal of
  dot segments on resolution, and re-encoding on printing.
\<close>

subsection \<open>Helpers of package strings\<close>

definition HasPrefix :: "string \<Rightarrow> string \<Rightarrow> bool" where
  "HasPrefix s p \<longleftrightarrow> take (length p) s = p"

text \<open>\<^verbatim>\<open>strings.Cut(s, sep)\<close> for a separator of one byte.\<close>

definition Cut :: "string \<Rightarrow> char \<Rightarrow> string \<times> string \<times> bool" where
  "Cut s sep =
     (if sep \<in> set s
      then (takeWhile (\<lambda>c. c \<noteq> sep) s, tl (dropWhile (\<lambda>c. c \<noteq> sep) s), True)
      else (s, [], False))"

text \<open>\<^verbatim>\<open>strings.Index\<close>, with \<open>-1\<close> when the substring does not occur.\<close>

fun Index_from :: "nat \<Rightarrow> string \<Rightarrow> string \<Rightarrow> int" where
  "Index_from i [] sub = (if sub = [] then int i else - 1)"
| "Index_from i (c # cs) sub =
     (if HasPrefix (c # cs) sub then int i else Index_from (Suc i) cs sub)"

definition Index :: "string \<Rightarrow> string \<Rightarrow> int" where
  "Index s sub = Index_from 0 s sub"

text \<open>\<^verbatim>\<open>strings.LastIndex(s, sep)\<close> for a separator of one byte.\<close>

definition LastIndexByte :: "string \<Rightarrow> char \<Rightarrow> int" where
  "LastIndexByte s c =
     (if c \<in> set s
      then int (length s) - 1 - int (length (takeWhile (\<lambda>x. x \<noteq> c) (rev s)))
      else - 1)"

text \<open>The elements that repeated \<^verbatim>\<open>strings.Cut(remaining, "/")\<close> yields, in order.\<close>

fun Split :: "string \<Rightarrow> char \<Rightarrow> string list" where
  "Split [] sep = [[]]"
| "Split (c # cs) sep =
     (if c = sep then [] # Split cs sep
      else (case Split cs sep of [] \<Rightarrow> [[c]] | x # xs \<Rightarrow> (c # x) # xs))"

subsection \<open>Escaping\<close>

datatype encoding =
    encodePath
  | encodePathSegment
  | encodeHost
  | encodeZone
  | encodeUserPassword
  | encodeQueryComponent
  | encodeFragment

definition ishex :: "char \<Rightarrow> bool" where
  "ishex c \<longleftrightarrow>
     isDigit c \<or> (byte CHR ''a'' \<le> byte c \<and> byte c \<le> byte CHR ''f'')
       \<or> (byte CHR ''A'' \<le> byte c \<and> byte c \<le> byte CHR ''F'')"

definition unhex :: "char \<Rightarrow> nat" where
  "unhex c =
     (if isDigit c then byte c - byte CHR ''0''
      else if byte CHR ''a'' \<le> byte c \<and> byte c \<le> byte CHR ''f'' then byte c - byte CHR ''a'' + 10
      else if byte CHR ''A'' \<le> byte c \<and> byte c \<le> byte CHR ''F'' then byte c - byte CHR ''A'' + 10
      else 0)"

definition shouldEscape :: "char \<Rightarrow> encoding \<Rightarrow> bool" where
  "shouldEscape c mode =
     (if isLowerAZ c \<or> isUpperAZ c \<or> isDigit c then False
      else if (mode = encodeHost \<or> mode = encodeZone)
          \<and> (c \<in> set ''!$&()*+,;=:[]<>'' \<or> c = CHR 0x27 \<or> c = CHR 0x22) then False
      else if c \<in> set ''-_.~'' then False
      else if c \<in> set ''$&+,/:;=?@'' then
        (case mode of
           encodePath \<Rightarrow> c = CHR ''?''
         | encodePathSegment \<Rightarrow> c = CHR ''/'' \<or> c = CHR '';'' \<or> c = CHR '','' \<or> c = CHR ''?''
         | encodeUserPassword \<Rightarrow> c = CHR ''@'' \<or> c = CHR ''/'' \<or> c = CHR ''?'' \<or> c = CHR '':''
         | encodeQueryComponent \<Rightarrow> True
         | encodeFragment \<Rightarrow> False
         | _ \<Rightarrow> True)
      else if mode = encodeFragment \<and> c \<in> set ''!()*'' then False
      else True)"

text \<open>
  \<^verbatim>\<open>unescape\<close>: the first pass checks that every \<^verbatim>\<open>%\<close> is followed by two hexadecimal
  digits (and what a host may hold), the second pass decodes.
\<close>

fun unescape_check :: "encoding \<Rightarrow> string \<Rightarrow> error option" where
  "unescape_check mode [] = None"
| "unescape_check mode (c # s) =
     (if c = CHR ''%'' then
        (if length s < 2 \<or> \<not> ishex (s ! 0) \<or> \<not> ishex (s ! 1)
         then Some (EscapeError (take 3 (c # s)))
         else if mode = encodeHost \<and> unhex (s ! 0) < 8 \<and> take 3 (c # s) \<noteq> ''%25''
         then Some (EscapeError (take 3 (c # s)))
         else if mode = encodeZone \<and> take 3 (c # s) \<noteq> ''%25''
             \<and> unhex (s ! 0) * 16 + unhex (s ! 1) \<noteq> byte CHR '' ''
             \<and> shouldEscape (char_of (unhex (s ! 0) * 16 + unhex (s ! 1))) encodeHost
         then Some (EscapeError (take 3 (c # s)))
         else unescape_check mode (drop 2 s))
      else if c = CHR ''+'' then unescape_check mode s
      else if (mode = encodeHost \<or> mode = encodeZone) \<and> byte c < 128
          \<and> shouldEscape c encodeHost
      then Some (InvalidHostError [c])
      else unescape_check mode s)"

fun unescape_decode :: "encoding \<Rightarrow> string \<Rightarrow> string" where
  "unescape_decode mode [] = []"
| "unescape_decode mode (c # s) =
     (if c = CHR ''%'' then
        char_of (unhex (s ! 0) * 16 + unhex (s ! 1)) # unescape_decode mode (drop 2 s)
      else if c = CHR ''+'' then
        (if mode = encodeQueryComponent then CHR '' '' else CHR ''+'') # unescape_decode mode s
      else c # unescape_decode mode s)"

definition unescape :: "string \<Rightarrow> encoding \<Rightarrow> error + string" where
  "unescape s mode =
     (case unescape_check mode s of
        Some e \<Rightarrow> Inl e
      | None \<Rightarrow> Inr (unescape_decode mode s))"

definition upperhex :: "nat \<Rightarrow> char" where
  "upperhex n = ''0123456789ABCDEF'' ! n"

definition escape_byte :: "encoding \<Rightarrow> char \<Rightarrow> string" where
  "escape_byte mode c =
     (if shouldEscape c mode then
        (if c = CHR '' '' \<and> mode = encodeQueryComponent then ''+''
         else [CHR ''%'', upperhex (byte c div 16), upperhex (byte c mod 16)])
      else [c])"

definition escape :: "string \<Rightarrow> encoding \<Rightarrow> string" where
  "escape s mode = concat (map (escape_byte mode) s)"

definition validEncoded :: "string \<Rightarrow> encoding \<Rightarrow> bool" where
  "validEncoded s mode =
     list_all (\<lambda>c. c \<in> set ''!$&()*+,;=:@[]%'' \<or> c = CHR 0x27 \<or> \<not> shouldEscape c mode) s"

subsection \<open>The URL structure\<close>

record Userinfo =
  username :: string
  password :: string
  passwordSet :: bool

record URL =
  Scheme :: string
  Opaque :: string
  User :: "Userinfo option"
  Host :: string
  Path :: string
  RawPath :: string
  OmitHost :: bool
  ForceQuery :: bool
  RawQuery :: string
  Fragment :: string
  RawFragment :: string

text \<open>The zero value \<^verbatim>\<open>new(URL)\<close>.\<close>

definition new_URL :: URL where
  "new_URL =
     \<lparr>Scheme = [], Opaque = [], User = None, Host = [], Path = [], RawPath = [],
      OmitHost = False, ForceQuery = False, RawQuery = [], Fragment = [], RawFragment = []\<rparr>"

definition setPath :: "URL \<Rightarrow> string \<Rightarrow> error + URL" where
  "setPath u p =
     (case unescape p encodePath of
        Inl e \<Rightarrow> Inl e
      | Inr path \<Rightarrow>
          Inr (u\<lparr>Path := path,
                 RawPath := (if p = escape path encodePath then [] else p)\<rparr>))"

definition EscapedPath :: "URL \<Rightarrow> string" where
  "EscapedPath u =
     (if RawPath u \<noteq> [] \<and> validEncoded (RawPath u) encodePath
         \<and> unescape (RawPath u) encodePath = Inr (Path u)
      then RawPath u
      else if Path u = ''*'' then ''*''
      else escape (Path u) encodePath)"

definition setFragment :: "URL \<Rightarrow> string \<Rightarrow> error + URL" where
  "setFragment u f =
     (case unescape f encodeFragment of
        Inl e \<Rightarrow> Inl e
      | Inr frag \<Rightarrow>
          Inr (u\<lparr>Fragment := frag,
                 RawFragment := (if f = escape frag encodeFragment then [] else f)\<rparr>))"

definition EscapedFragment :: "URL \<Rightarrow> string" where
  "EscapedFragment u =
     (if RawFragment u \<noteq> [] \<and> validEncoded (RawFragment u) encodeFragment
         \<and> unescape (RawFragment u) encodeFragment = Inr (Fragment u)
      then RawFragment u
      else escape (Fragment u) encodeFragment)"

subsection \<open>Parsing\<close>

definition stringContainsCTLByte :: "string \<Rightarrow> bool" where
  "stringContainsCTLByte s \<longleftrightarrow> list_ex (\<lambda>c. byte c < 32 \<or> byte c = 127) s"

fun getScheme_from :: "nat \<Rightarrow> string \<Rightarrow> string \<Rightarrow> error + string \<times> string" where
  "getScheme_from i rawURL [] = Inr ([], rawURL)"
| "getScheme_from i rawURL (c # cs) =
     (if isLowerAZ c \<or> isUpperAZ c then getScheme_from (Suc i) rawURL cs
      else if isDigit c \<or> c = CHR ''+'' \<or> c = CHR ''-'' \<or> c = CHR ''.'' then
        (if i = 0 then Inr ([], rawURL) else getScheme_from (Suc i) rawURL cs)
      else if c = CHR '':'' then
        (if i = 0 then Inl (errorString ''missing protocol scheme'')
         else Inr (take i rawURL, drop (Suc i) rawURL))
      else Inr ([], rawURL))"

definition getScheme :: "string \<Rightarrow> error + string \<times> string" where
  "getScheme rawURL = getScheme_from 0 rawURL rawURL"

definition validOptionalPort :: "string \<Rightarrow> bool" where
  "validOptionalPort port \<longleftrightarrow>
     port = [] \<or> (hd port = CHR '':'' \<and> list_all isDigit (tl port))"

definition validUserinfo :: "string \<Rightarrow> bool" where
  "validUserinfo s \<longleftrightarrow>
     list_all (\<lambda>c. isUpperAZ c \<or> isLowerAZ c \<or> isDigit c
                 \<or> c \<in> set ''-._:~!$&()*+,;=%@'' \<or> c = CHR 0x27) s"

definition parseHost :: "string \<Rightarrow> error + string" where
  "parseHost host =
     (if HasPrefix host ''['' then
        (let i = LastIndexByte host CHR '']'' in
         if i < 0 then Inl (errorString ''missing ']' in host'')
         else if \<not> validOptionalPort (drop (nat (i + 1)) host)
         then Inl (Errorf ''invalid port %q after host'' [drop (nat (i + 1)) host])
         else
           (let zone = Index (take (nat i) host) ''%25'' in
            if zone \<ge> 0 then
              (case unescape (take (nat zone) host) encodeHost of
                 Inl e \<Rightarrow> Inl e
               | Inr host1 \<Rightarrow>
                  (case unescape (drop (nat zone) (take (nat i) host)) encodeZone of
                     Inl e \<Rightarrow> Inl e
                   | Inr host2 \<Rightarrow>
                      (case unescape (drop (nat i) host) encodeHost of
                         Inl e \<Rightarrow> Inl e
                       | Inr host3 \<Rightarrow> Inr (host1 @ host2 @ host3))))
            else unescape host encodeHost))
      else if LastIndexByte host CHR '':'' \<noteq> - 1
          \<and> \<not> validOptionalPort (drop (nat (LastIndexByte host CHR '':'')) host)
      then Inl (Errorf ''invalid port %q after host''
                  [drop (nat (LastIndexByte host CHR '':'')) host])
      else unescape host encodeHost)"

definition parseAuthority :: "string \<Rightarrow> error + Userinfo option \<times> string" where
  "parseAuthority authority =
     (let i = LastIndexByte authority CHR ''@'' in
      case parseHost (if i < 0 then authority else drop (nat (i + 1)) authority) of
        Inl e \<Rightarrow> Inl e
      | Inr host \<Rightarrow>
          if i < 0 then Inr (None, host)
          else
            (let userinfo = take (nat i) authority in
             if \<not> validUserinfo userinfo then Inl (errorString ''net/url: invalid userinfo'')
             else if CHR '':'' \<notin> set userinfo then
               (case unescape userinfo encodeUserPassword of
                  Inl e \<Rightarrow> Inl e
                | Inr name \<Rightarrow>
                    Inr (Some \<lparr>username = name, password = [], passwordSet = False\<rparr>, host))
             else
               (case unescape (fst (Cut userinfo CHR '':'')) encodeUserPassword of
                  Inl e \<Rightarrow> Inl e
                | Inr name \<Rightarrow>
                   (case unescape (fst (snd (Cut userinfo CHR '':''))) encodeUserPassword of
                      Inl e \<Rightarrow> Inl e
                    | Inr pass \<Rightarrow>
                        Inr (Some \<lparr>username = name, password = pass, passwordSet = True\<rparr>,
                             host)))))"

text \<open>
  \<^verbatim>\<open>parse(rawURL, viaRequest)\<close> with \<^verbatim>\<open>viaRequest = false\<close>, as \<^verbatim>\<open>url.Parse\<close> calls it.
\<close>

definition parse :: "string \<Rightarrow> error + URL" where
  "parse rawURL =
     (if stringContainsCTLByte rawURL
      then Inl (errorString ''net/url: invalid control character in URL'')
      else if rawURL = ''*'' then Inr (new_URL\<lparr>Path := ''*''\<rparr>)
      else
        (case getScheme rawURL of
           Inl e \<Rightarrow> Inl e
         | Inr (scheme, rest0) \<Rightarrow>
            (let force = (rest0 \<noteq> [] \<and> last rest0 = CHR ''?'' \<and> count_list rest0 CHR ''?'' = 1);
                 rest = (if force then butlast rest0 else fst (Cut rest0 CHR ''?''));
                 url = new_URL
                   \<lparr>Scheme := map lowerByte scheme,
                    ForceQuery := force,
                    RawQuery := (if force then [] else fst (snd (Cut rest0 CHR ''?'')))\<rparr>
             in
               if \<not> HasPrefix rest ''/'' \<and> Scheme url \<noteq> [] then Inr (url\<lparr>Opaque := rest\<rparr>)
               else if \<not> HasPrefix rest ''/'' \<and> CHR '':'' \<in> set (fst (Cut rest CHR ''/''))
               then Inl (errorString ''first path segment in URL cannot contain colon'')
               else if (Scheme url \<noteq> [] \<or> \<not> HasPrefix rest ''///'') \<and> HasPrefix rest ''//''
               then
                 (let authority0 = drop 2 rest;
                      i = Index authority0 ''/'';
                      authority = (if i \<ge> 0 then take (nat i) authority0 else authority0);
                      rest' = (if i \<ge> 0 then drop (nat i) authority0 else [])
                  in case parseAuthority authority of
                       Inl e \<Rightarrow> Inl e
                     | Inr (user, host) \<Rightarrow> setPath (url\<lparr>User := user, Host := host\<rparr>) rest')
               else if Scheme url \<noteq> [] \<and> HasPrefix rest ''/''
               then setPath (url\<lparr>OmitHost := True\<rparr>) rest
               else setPath url rest)))"

definition url_Parse :: "string \<Rightarrow> error + URL" where
  "url_Parse rawURL =
     (let u = fst (Cut rawURL CHR ''#''); frag = fst (snd (Cut rawURL CHR ''#'')) in
      case parse u of
        Inl e \<Rightarrow> Inl (url_Error ''parse'' u e)
      | Inr url \<Rightarrow>
          if frag = [] then Inr url
          else
            (case setFragment url frag of
               Inl e \<Rightarrow> Inl (url_Error ''parse'' rawURL e)
             | Inr url' \<Rightarrow> Inr url'))"

subsection \<open>Printing\<close>

definition Userinfo_String :: "Userinfo \<Rightarrow> string" where
  "Userinfo_String ui =
     escape (username ui) encodeUserPassword @
     (if passwordSet ui then '':'' @ escape (password ui) encodeUserPassword else [])"

definition URL_String :: "URL \<Rightarrow> string" where
  "URL_String u =
     (let buf0 = (if Scheme u \<noteq> [] then Scheme u @ '':'' else []);
          buf1 =
            (if Opaque u \<noteq> [] then buf0 @ Opaque u
             else
               (let b1 =
                      (if Scheme u \<noteq> [] \<or> Host u \<noteq> [] \<or> User u \<noteq> None then
                         (if OmitHost u \<and> Host u = [] \<and> User u = None then buf0
                          else
                            (if Host u \<noteq> [] \<or> Path u \<noteq> [] \<or> User u \<noteq> None
                             then buf0 @ ''//'' else buf0)
                            @ (case User u of
                                 None \<Rightarrow> []
                               | Some ui \<Rightarrow> Userinfo_String ui @ ''@'')
                            @ (if Host u \<noteq> [] then escape (Host u) encodeHost else []))
                       else buf0);
                    path = EscapedPath u;
                    b2 = (if path \<noteq> [] \<and> hd path \<noteq> CHR ''/'' \<and> Host u \<noteq> []
                          then b1 @ ''/'' else b1);
                    b3 = (if b2 = [] \<and> CHR '':'' \<in> set (fst (Cut path CHR ''/''))
                          then b2 @ ''./'' else b2)
                in b3 @ path));
          buf2 = (if ForceQuery u \<or> RawQuery u \<noteq> [] then buf1 @ ''?'' @ RawQuery u else buf1)
      in if Fragment u \<noteq> [] then buf2 @ ''#'' @ EscapedFragment u else buf2)"

subsection \<open>Reference resolution\<close>

text \<open>
  The loop of \<^verbatim>\<open>resolvePath\<close> over the elements of the path: \<open>dst\<close> is the output written
  so far, \<open>first\<close> tells that nothing but the leading slash has been written.
\<close>

fun resolvePath_loop :: "string list \<Rightarrow> string \<Rightarrow> bool \<Rightarrow> string" where
  "resolvePath_loop [] dst first = dst"
| "resolvePath_loop (elem # elems) dst first =
     (if elem = ''.'' then resolvePath_loop elems dst False
      else if elem = ''..'' then
        (let str = drop 1 dst; index = LastIndexByte str CHR ''/'' in
         if index = - 1 then resolvePath_loop elems ''/'' True
         else resolvePath_loop elems (''/'' @ take (nat index) str) first)
      else resolvePath_loop elems ((if \<not> first then dst @ ''/'' else dst) @ elem) False)"

definition resolvePath :: "string \<Rightarrow> string \<Rightarrow> string" where
  "resolvePath base ref =
     (let full =
            (if ref = [] then base
             else if hd ref \<noteq> CHR ''/''
             then take (nat (LastIndexByte base CHR ''/'' + 1)) base @ ref
             else ref)
      in if full = [] then []
         else
           (let elems = Split full CHR ''/'';
                dst = resolvePath_loop elems ''/'' True;
                r = (if last elems = ''.'' \<or> last elems = ''..'' then dst @ ''/'' else dst)
            in if length r > 1 \<and> r ! 1 = CHR ''/'' then drop 1 r else r))"

text \<open>\<^verbatim>\<open>url.setPath(...)\<close> with the error ignored, as \<^verbatim>\<open>ResolveReference\<close> calls it.\<close>

definition setPath_ignoring_error :: "URL \<Rightarrow> string \<Rightarrow> URL" where
  "setPath_ignoring_error u p = (case setPath u p of Inl e \<Rightarrow> u | Inr u' \<Rightarrow> u')"

definition ResolveReference :: "URL \<Rightarrow> URL \<Rightarrow> URL" where
  "ResolveReference u ref =
     (let url = (if Scheme ref = [] then ref\<lparr>Scheme := Scheme u\<rparr> else ref) in
      if Scheme ref \<noteq> [] \<or> Host ref \<noteq> [] \<or> User ref \<noteq> None
      then setPath_ignoring_error url (resolvePath (EscapedPath ref) [])
      else if Opaque ref \<noteq> [] then url\<lparr>User := None, Host := [], Path := []\<rparr>
      else
        (let url1 =
               (if Path ref = [] \<and> \<not> ForceQuery ref \<and> RawQuery ref = [] then
                  (if Fragment ref = []
                   then url\<lparr>RawQuery := RawQuery u, Fragment := Fragment u,
                            RawFragment := RawFragment u\<rparr>
                   else url\<lparr>RawQuery := RawQuery u\<rparr>)
                else url)
         in if Path ref = [] \<and> Opaque u \<noteq> []
            then url1\<lparr>Opaque := Opaque u, User := None, Host := [], Path := []\<rparr>
            else setPath_ignoring_error (url1\<lparr>Host := Host u, User := User u\<rparr>)
                   (resolvePath (EscapedPath u) (EscapedPath ref))))"

section \<open>Bodies, requests, responses and loggers\<close>

text \<open>
  A body (\<^verbatim>\<open>io.ReadCloser\<close>) is a stream that can be read once: \<open>Reader bs e\<close> still has
  the bytes \<open>bs\<close> to deliver and then ends, with end of file when \<open>e\<close> is \<open>None\<close> and
  with the read error \<open>e\<close> otherwise. \<^verbatim>\<open>ioutil.ReadAll\<close> returns the bytes read and the
  error, and leaves the stream drained.
\<close>

datatype ReadCloser = Reader string "error option"

fun ReadAll :: "ReadCloser \<Rightarrow> string \<times> error option \<times> ReadCloser" where
  "ReadAll (Reader bs e) = (bs, e, Reader [] e)"

text \<open>\<^verbatim>\<open>io.NopCloser(bytes.NewBuffer(body))\<close>: a new stream over the bytes in memory.\<close>

definition NopCloser_NewBuffer :: "string \<Rightarrow> ReadCloser" where
  "NopCloser_NewBuffer body = Reader body None"

text \<open>The fields of \<^verbatim>\<open>http.Request\<close> and \<^verbatim>\<open>http.Response\<close> that the program reads.\<close>

record Request =
  Method :: string
  URL :: URL
  Header :: Header
  Body :: ReadCloser

record Response =
  Status :: string
  StatusCode :: int
  Header :: Header
  Body :: ReadCloser

text \<open>
  A \<^verbatim>\<open>log.Logger\<close> is the sequence of its outputs, one entry for each call of
  \<^verbatim>\<open>Printf\<close>, which the logger writes as one line behind its prefix and time stamp. An
  entry keeps the format and the arguments of the call.
\<close>

datatype arg = String string | Bytes string | URL_arg URL | Error_arg error

type_synonym Logger = "(string \<times> arg list) list"

definition Printf :: "Logger \<Rightarrow> string \<Rightarrow> arg list \<Rightarrow> Logger" where
  "Printf logger format args = logger @ [(format, args)]"

section \<open>\<^verbatim>\<open>logRequest\<close> and \<^verbatim>\<open>logResponse\<close> (main.go, lines 146 to 180)\<close>

text \<open>
  The loops of lines 148 to 152 and 166 to 170 over a header map, which differ in the
  format only: one call of \<^verbatim>\<open>Printf\<close> for each value of each key.
\<close>

fun logValues :: "string \<Rightarrow> string \<Rightarrow> string list \<Rightarrow> Logger \<Rightarrow> Logger" where
  "logValues format name [] logger = logger"
| "logValues format name (v # vs) logger =
     logValues format name vs (Printf logger format [String name, String v])"

fun logHeader :: "string \<Rightarrow> Header \<Rightarrow> string list \<Rightarrow> Logger \<Rightarrow> Logger" where
  "logHeader format h [] logger = logger"
| "logHeader format h (name # names) logger =
     logHeader format h names (logValues format name (values_of h name) logger)"

text \<open>
  \<^verbatim>\<open>logRequest(r, logger)\<close> changes the request (\<^verbatim>\<open>r.Body\<close>) and the logger; \<open>names\<close> is
  the order in which line 148 visits \<^verbatim>\<open>r.Header\<close>.
\<close>

definition logRequest :: "Request \<Rightarrow> string list \<Rightarrow> Logger \<Rightarrow> Request \<times> Logger" where
  "logRequest r names logger =
     (let logger1 = Printf logger ''Request: %s %s'' [String (Method r), URL_arg (URL r)];
          logger2 = logHeader ''Request Header: %s: %s'' (Request.Header r) names logger1
      in case ReadAll (Request.Body r) of
           (body, Some err, drained) \<Rightarrow>
             (r\<lparr>Request.Body := drained\<rparr>,
              Printf logger2 ''Failed to read request body: %v'' [Error_arg err])
         | (body, None, drained) \<Rightarrow>
             (r\<lparr>Request.Body := NopCloser_NewBuffer body\<rparr>,
              Printf logger2 ''Request Body: %s'' [Bytes body]))"

definition logResponse :: "Response \<Rightarrow> string list \<Rightarrow> Logger \<Rightarrow> Response \<times> Logger" where
  "logResponse resp names logger =
     (let logger1 = Printf logger ''Response: %s'' [String (Status resp)];
          logger2 = logHeader ''Response Header: %s: %s'' (Response.Header resp) names logger1
      in case ReadAll (Response.Body resp) of
           (body, Some err, drained) \<Rightarrow>
             (resp\<lparr>Response.Body := drained\<rparr>,
              Printf logger2 ''Failed to read response body: %v'' [Error_arg err])
         | (body, None, drained) \<Rightarrow>
             (resp\<lparr>Response.Body := NopCloser_NewBuffer body\<rparr>,
              Printf logger2 ''Response Body: %s'' [Bytes body]))"

section \<open>The standard library's requests and response writer (net/http, io)\<close>

text \<open>
  \<^verbatim>\<open>http.NewRequest(method, url, body)\<close>: an empty method means \<^verbatim>\<open>GET\<close>, the method must
  be a token, the URL is parsed again, an empty port is dropped from the host, and the
  new request has an empty header map.
\<close>

definition validMethod :: "string \<Rightarrow> bool" where
  "validMethod method \<longleftrightarrow> method \<noteq> [] \<and> list_all validHeaderFieldByte method"

definition removeEmptyPort :: "string \<Rightarrow> string" where
  "removeEmptyPort host =
     (if LastIndexByte host CHR '':'' > LastIndexByte host CHR '']''
         \<and> host \<noteq> [] \<and> last host = CHR '':''
      then butlast host else host)"

definition http_NewRequest :: "string \<Rightarrow> string \<Rightarrow> ReadCloser \<Rightarrow> error + Request" where
  "http_NewRequest method url body =
     (let method' = (if method = [] then ''GET'' else method) in
      if \<not> validMethod method' then Inl (Errorf ''net/http: invalid method %q'' [method'])
      else
        (case url_Parse url of
           Inl e \<Rightarrow> Inl e
         | Inr u \<Rightarrow>
             Inr \<lparr>Method = method', URL = u\<lparr>Host := removeEmptyPort (Host u)\<rparr>,
                  Header = Map.empty, Body = body\<rparr>))"

text \<open>
  An \<^verbatim>\<open>http.ResponseWriter\<close> is what the client is sent: the header map, the status
  code once \<^verbatim>\<open>WriteHeader\<close> has been called, and the bytes of the body written so far.
\<close>

record ResponseWriter =
  sentHeader :: Header
  sentStatus :: "int option"
  sentBody :: string

definition new_ResponseWriter :: ResponseWriter where
  "new_ResponseWriter = \<lparr>sentHeader = Map.empty, sentStatus = None, sentBody = []\<rparr>"

text \<open>
  \<^verbatim>\<open>WriteHeader(code)\<close>: only the first call counts, a later one is ignored. The first
  call checks the code (\<^verbatim>\<open>checkWriteHeaderCode\<close>) and panics with
  \<^verbatim>\<open>invalid WriteHeader code\<close> when it is below 100 or above 999; nothing has been sent
  then, and the server closes the connection when the panic leaves the handler.
\<close>

datatype panic = invalid_WriteHeader_code int

definition WriteHeader :: "ResponseWriter \<Rightarrow> int \<Rightarrow> panic + ResponseWriter" where
  "WriteHeader w code =
     (if sentStatus w \<noteq> None then Inr w
      else if code < 100 \<or> code > 999 then Inl (invalid_WriteHeader_code code)
      else Inr (w\<lparr>sentStatus := Some code\<rparr>))"

text \<open>\<^verbatim>\<open>Write(bs)\<close>: a first \<^verbatim>\<open>Write\<close> without \<^verbatim>\<open>WriteHeader\<close> sends the status 200.\<close>

definition Write :: "ResponseWriter \<Rightarrow> string \<Rightarrow> ResponseWriter" where
  "Write w bs =
     (let w' = (if sentStatus w = None then w\<lparr>sentStatus := Some 200\<rparr> else w)
      in w'\<lparr>sentBody := sentBody w' @ bs\<rparr>)"

text \<open>
  \<^verbatim>\<open>http.Error(w, error, code)\<close> sets two headers, writes the status code and prints the
  message and a newline as the body.
\<close>

definition http_Error :: "ResponseWriter \<Rightarrow> string \<Rightarrow> int \<Rightarrow> panic + ResponseWriter" where
  "http_Error w msg code =
     (let h1 = Header_Set (sentHeader w) ''Content-Type'' ''text/plain; charset=utf-8'';
          h2 = Header_Set h1 ''X-Content-Type-Options'' ''nosniff''
      in case WriteHeader (w\<lparr>sentHeader := h2\<rparr>) code of
           Inl p \<Rightarrow> Inl p
         | Inr w' \<Rightarrow> Inr (Write w' (msg @ [CHR 0x0A])))"

text \<open>
  \<^verbatim>\<open>io.Copy(w, body)\<close> writes what the stream delivers and returns the read error, if
  any (end of file is none).
\<close>

definition io_Copy :: "ResponseWriter \<Rightarrow> ReadCloser \<Rightarrow> ResponseWriter \<times> error option" where
  "io_Copy w body =
     (case ReadAll body of
        (bs, err, drained) \<Rightarrow> ((if bs = [] then w else Write w bs), err))"

section \<open>\<^verbatim>\<open>redirectHandler\<close> (main.go, lines 86 to 144)\<close>

text \<open>
  What one call of the handler can change: the response writer, the three loggers, and
  the network, of which \<open>dispatched\<close> records every request handed to \<^verbatim>\<open>client.Do\<close>. A
  call that ends in a panic instead of returning leaves the panic in \<open>panicked\<close>.
\<close>

record World =
  writer :: ResponseWriter
  requestLogger :: Logger
  responseLogger :: Logger
  errorLogger :: Logger
  dispatched :: "Request list"
  panicked :: "panic option"

text \<open>
  The upstream server and the network are outside the program: \<open>upstream n req\<close> is what
  \<^verbatim>\<open>client.Do\<close> returns for the request \<open>req\<close> when \<open>n\<close> requests have been dispatched
  before, a response or an error.
\<close>

type_synonym Upstream = "nat \<Rightarrow> Request \<Rightarrow> error + Response"

definition client_Do :: "Upstream \<Rightarrow> World \<Rightarrow> Request \<Rightarrow> (error + Response) \<times> World" where
  "client_Do upstream s req =
     (upstream (length (dispatched s)) req, s\<lparr>dispatched := dispatched s @ [req]\<rparr>)"

text \<open>The orders in which the four \<^verbatim>\<open>range\<close> loops over header maps visit the keys.\<close>

record Ranges =
  logRequest_order :: "string list"
  copy_order :: "string list"
  logResponse_order :: "string list"
  relay_order :: "string list"

text \<open>Lines 135 to 139: every value of every key is added to the header of \<open>w\<close>.\<close>

fun relayValues :: "string \<Rightarrow> string list \<Rightarrow> Header \<Rightarrow> Header" where
  "relayValues key [] h = h"
| "relayValues key (v # vs) h = relayValues key vs (Header_Add h key v)"

fun relayHeader :: "Header \<Rightarrow> string list \<Rightarrow> Header \<Rightarrow> Header" where
  "relayHeader src [] h = h"
| "relayHeader src (key # keys) h =
     relayHeader src keys (relayValues key (values_of src key) h)"

text \<open>
  Lines 98 to 119: the new request, with the resolved URL, the method and the body of the
  inbound request, and the transformed header. The error is the one of
  \<^verbatim>\<open>http.NewRequest\<close>, which lines 101 to 105 report.
\<close>

definition proxyRequest :: "Request \<Rightarrow> URL \<Rightarrow> string list \<Rightarrow> error + Request" where
  "proxyRequest r target names =
     (let proxyURL = ResolveReference target (URL r) in
      case http_NewRequest (Method r) (URL_String proxyURL) (Request.Body r) of
        Inl err \<Rightarrow> Inl err
      | Inr proxyReq \<Rightarrow>
          Inr (proxyReq
                 \<lparr>Request.Header :=
                    transformHeader (Request.Header r) names (Request.Header proxyReq)\<rparr>))"

text \<open>
  Lines 134 to 143: headers, status code and body of the response go to the client. (The
  deferred \<^verbatim>\<open>resp.Body.Close()\<close> of line 129 releases the connection and changes nothing
  that is modelled.)
\<close>

definition relayResponse :: "Response \<Rightarrow> string list \<Rightarrow> World \<Rightarrow> World" where
  "relayResponse resp keys s =
     (let w1 = (writer s)
            \<lparr>sentHeader := relayHeader (Response.Header resp) keys (sentHeader (writer s))\<rparr>
      in case WriteHeader w1 (StatusCode resp) of
           Inl p \<Rightarrow> s\<lparr>writer := w1, panicked := Some p\<rparr>
         | Inr w2 \<Rightarrow>
             (case io_Copy w2 (Response.Body resp) of
                (w3, None) \<Rightarrow> s\<lparr>writer := w3\<rparr>
              | (w3, Some err) \<Rightarrow>
                  s\<lparr>writer := w3,
                    errorLogger :=
                      Printf (errorLogger s) ''Failed to copy response body: %v''
                        [Error_arg err]\<rparr>))"

text \<open>
  The three error exits of the handler (lines 93 to 95, 102 to 104 and 125 to 127):
  \<^verbatim>\<open>http.Error(w, msg, http.StatusInternalServerError)\<close>, then
  \<^verbatim>\<open>errorLogger.Printf(format, err)\<close>, then \<^verbatim>\<open>return\<close>.
\<close>

definition reportError :: "World \<Rightarrow> string \<Rightarrow> string \<Rightarrow> error \<Rightarrow> World" where
  "reportError s msg format err =
     (case http_Error (writer s) msg 500 of
        Inl p \<Rightarrow> s\<lparr>panicked := Some p\<rparr>
      | Inr w' \<Rightarrow>
          s\<lparr>writer := w', errorLogger := Printf (errorLogger s) format [Error_arg err]\<rparr>)"

text \<open>
  The handler: \<open>s0\<close> is the world before the call, \<open>r0\<close> the inbound request and
  \<open>targetServer\<close> the configured base URL.
\<close>

definition redirectHandler ::
  "Upstream \<Rightarrow> Ranges \<Rightarrow> World \<Rightarrow> Request \<Rightarrow> string \<Rightarrow> World" where
  "redirectHandler upstream rg s0 r0 targetServer =
     (case logRequest r0 (logRequest_order rg) (requestLogger s0) of
        (r, reqLog) \<Rightarrow>
          (let s1 = s0\<lparr>requestLogger := reqLog\<rparr> in
           case url_Parse targetServer of
             Inl err \<Rightarrow>
               reportError s1 ''Invalid target server URL'' ''Invalid target server URL: %v'' err
           | Inr target \<Rightarrow>
               (case proxyRequest r target (copy_order rg) of
                  Inl err \<Rightarrow>
                    reportError s1 ''Failed to create request'' ''Failed to create request: %v''
                      err
                | Inr proxyReq \<Rightarrow>
                    (case client_Do upstream s1 proxyReq of
                       (Inl err, s2) \<Rightarrow>
                         reportError s2 ''Failed to connect to server''
                           ''Failed to connect to server: %v'' err
                     | (Inr resp0, s2) \<Rightarrow>
                         (case logResponse resp0 (logResponse_order rg) (responseLogger s2) of
                            (resp, respLog) \<Rightarrow>
                              relayResponse resp (relay_order rg)
                                (s2\<lparr>responseLogger := respLog\<rparr>))))))"

section \<open>A request, a world and two upstream servers to run the handler on\<close>

definition example_request :: Request where
  "example_request =
     \<lparr>Method = ''POST'',
      URL = new_URL\<lparr>Path := ''/v1/items'', RawQuery := ''x=1''\<rparr>,
      Header = [''Accept'' \<mapsto> [''*/*'', ''text/html''], ''User-Agent'' \<mapsto> [''curl/8.0'']],
      Body = Reader ''payload'' None\<rparr>"

definition example_world :: World where
  "example_world =
     \<lparr>writer = new_ResponseWriter, requestLogger = [], responseLogger = [], errorLogger = [],
      dispatched = [], panicked = None\<rparr>"

definition example_ranges :: Ranges where
  "example_ranges =
     \<lparr>logRequest_order = [''Accept'', ''User-Agent''],
      copy_order = [''User-Agent'', ''Accept''],
      logResponse_order = [''X-Foo''],
      relay_order = [''X-Foo'']\<rparr>"

definition example_response :: Response where
  "example_response =
     \<lparr>Status = ''201 Created'', StatusCode = 201,
      Header = [''X-Foo'' \<mapsto> [''a'', ''b'']], Body = Reader ''hello'' None\<rparr>"

definition example_upstream :: Upstream where
  "example_upstream n req = Inr example_response"

text \<open>An upstream that refuses the first connection and would accept every later one.\<close>

definition refusing_upstream :: Upstream where
  "refusing_upstream n req =
     (if n = 0 then Inl (net_Error ''connection refused'') else Inr example_response)"





text \<open>The request that the handler builds from \<open>example_request\<close>.\<close>

definition example_proxyRequest :: Request where
  "example_proxyRequest =
     \<lparr>Method = ''POST'',
      URL = new_URL\<lparr>Scheme := ''http'', Host := ''api.example.com'', Path := ''/v1/items'',
                     RawQuery := ''x=1''\<rparr>,
      Header = transformHeader (Request.Header example_request) [''User-Agent'', ''Accept'']
                 Map.empty,
      Body = Reader ''payload'' None\<rparr>"

text \<open>The same request with headers named \<open>X-Added-Header\<close> in two spellings.\<close>

definition tagged_request :: Request where
  "tagged_request =
     example_request
       \<lparr>Request.Header :=
          [''X-Added-Header'' \<mapsto> [''mine'', ''other''], ''x-added-header'' \<mapsto> [''third'']]\<rparr>"

text \<open>The same request with a body that breaks after three bytes, and what is built from it.\<close>

definition failing_request :: Request where
  "failing_request =
     example_request\<lparr>Request.Body := Reader ''pay'' (Some (net_Error ''unexpected EOF''))\<rparr>"

definition failing_proxyRequest :: Request where
  "failing_proxyRequest =
     example_proxyRequest\<lparr>Request.Body := Reader [] (Some (net_Error ''unexpected EOF''))\<rparr>"

section \<open>Facts about canonical keys\<close>

lemma canonical_User_Agent: "CanonicalMIMEHeaderKey ''User-Agent'' = ''User-Agent''"
  by code_simp

lemma canonical_X_Added_Header:
  "CanonicalMIMEHeaderKey ''X-Added-Header'' = ''X-Added-Header''"
  by code_simp

lemma canonical_user_agent_lower: "CanonicalMIMEHeaderKey ''user-agent'' = ''User-Agent''"
  by code_simp

lemma byte_inject: "byte c = byte d \<longleftrightarrow> c = d"
  by (simp add: byte_def)

lemma byte_char_of: "n < 256 \<Longrightarrow> byte (char_of n) = n"
  by (simp add: byte_def)

lemma byte_literals:
  "byte CHR ''a'' = 97" "byte CHR ''z'' = 122" "byte CHR ''A'' = 65" "byte CHR ''Z'' = 90"
  "byte CHR ''-'' = 45"
  by (simp_all add: byte_def)

lemma byte_subToLower: "isLowerAZ c \<Longrightarrow> byte (subToLower c) = byte c - 32"
proof -
  assume "isLowerAZ c"
  then have "byte c - 32 < 256"
    unfolding isLowerAZ_def byte_literals by arith
  then show ?thesis
    unfolding subToLower_def byte_literals by (simp add: byte_char_of)
qed

lemma byte_addToLower: "isUpperAZ c \<Longrightarrow> byte (addToLower c) = byte c + 32"
proof -
  assume "isUpperAZ c"
  then have "byte c + 32 < 256"
    unfolding isUpperAZ_def byte_literals by arith
  then show ?thesis
    unfolding addToLower_def byte_literals by (simp add: byte_char_of)
qed

lemma lower_not_upper: "isLowerAZ c \<Longrightarrow> \<not> isUpperAZ c"
  by (simp add: isLowerAZ_def isUpperAZ_def byte_literals)

lemma isUpperAZ_subToLower: "isLowerAZ c \<Longrightarrow> isUpperAZ (subToLower c)"
  using byte_subToLower [of c] unfolding isLowerAZ_def isUpperAZ_def byte_literals by arith

lemma isLowerAZ_addToLower: "isUpperAZ c \<Longrightarrow> isLowerAZ (addToLower c)"
  using byte_addToLower [of c] unfolding isLowerAZ_def isUpperAZ_def byte_literals by arith

lemma add_sub_ToLower: "isLowerAZ c \<Longrightarrow> addToLower (subToLower c) = c"
proof -
  assume l: "isLowerAZ c"
  then have "byte (addToLower (subToLower c)) = byte c - 32 + 32"
    by (simp add: byte_addToLower isUpperAZ_subToLower byte_subToLower)
  moreover from l have "32 \<le> byte c"
    by (simp add: isLowerAZ_def byte_literals)
  ultimately show ?thesis
    by (simp add: byte_inject [symmetric])
qed

lemma sub_add_ToLower: "isUpperAZ c \<Longrightarrow> subToLower (addToLower c) = c"
proof -
  assume u: "isUpperAZ c"
  then have "byte (subToLower (addToLower c)) = byte c + 32 - 32"
    by (simp add: byte_addToLower isLowerAZ_addToLower byte_subToLower)
  then show ?thesis
    by (simp add: byte_inject [symmetric])
qed

lemma hyphen_not_letter: "\<not> isLowerAZ CHR ''-''" "\<not> isUpperAZ CHR ''-''"
  by (simp_all add: isLowerAZ_def isUpperAZ_def byte_literals)

lemma addToLower_not_hyphen: "isUpperAZ c \<Longrightarrow> addToLower c \<noteq> CHR ''-''"
  using isLowerAZ_addToLower hyphen_not_letter by metis

text \<open>The canonical form of a key depends on the key up to letter case only.\<close>

lemma canonical_cong_lower:
  "canonicalMIMEHeaderKey up (map lowerByte s) = canonicalMIMEHeaderKey up s"
proof (induction s arbitrary: up)
  case Nil
  then show ?case by simp
next
  case (Cons c cs)
  show ?case
  proof (cases "isUpperAZ c")
    case True
    then have "c \<noteq> CHR ''-''"
      using hyphen_not_letter by auto
    with True show ?thesis
      using Cons [of False]
      by (auto simp add: lowerByte_def Let_def isLowerAZ_addToLower lower_not_upper
          sub_add_ToLower addToLower_not_hyphen hyphen_not_letter)
  next
    case False
    then show ?thesis
      using Cons by (simp add: lowerByte_def Let_def)
  qed
qed

text \<open>Canonicalisation changes the case of letters and nothing else.\<close>

lemma lower_canonical:
  "map lowerByte (canonicalMIMEHeaderKey up s) = map lowerByte s"
proof (induction s arbitrary: up)
  case Nil
  then show ?case by simp
next
  case (Cons c cs)
  then show ?case
    by (auto simp add: lowerByte_def Let_def isLowerAZ_addToLower lower_not_upper
        add_sub_ToLower isUpperAZ_subToLower)
qed

lemma valid_lowerByte: "validHeaderFieldByte (lowerByte c) \<longleftrightarrow> validHeaderFieldByte c"
  by (auto simp add: lowerByte_def validHeaderFieldByte_def isLowerAZ_addToLower)

lemma valid_map_lowerByte:
  "list_all validHeaderFieldByte (map lowerByte s) \<longleftrightarrow> list_all validHeaderFieldByte s"
  by (induction s) (simp_all add: valid_lowerByte)

lemma valid_lower_eq:
  assumes "map lowerByte s = map lowerByte t"
  shows "list_all validHeaderFieldByte s \<longleftrightarrow> list_all validHeaderFieldByte t"
  using valid_map_lowerByte [of s] valid_map_lowerByte [of t] assms by simp

lemma lower_Canonical: "map lowerByte (CanonicalMIMEHeaderKey s) = map lowerByte s"
  by (simp add: CanonicalMIMEHeaderKey_def lower_canonical)

text \<open>
  A canonical key that differs from a well-formed header name in letter case only is the
  canonical form of that name.
\<close>

lemma Canonical_case_variant:
  assumes valid: "list_all validHeaderFieldByte t"
    and same: "sameNameIgnoringCase (CanonicalMIMEHeaderKey s) t"
  shows "CanonicalMIMEHeaderKey s = CanonicalMIMEHeaderKey t"
proof -
  from same have eq: "map lowerByte s = map lowerByte t"
    by (simp add: sameNameIgnoringCase_def lower_Canonical)
  with valid have "list_all validHeaderFieldByte s"
    using valid_lower_eq by blast
  with valid have "CanonicalMIMEHeaderKey s = canonicalMIMEHeaderKey True s"
    and "CanonicalMIMEHeaderKey t = canonicalMIMEHeaderKey True t"
    by (simp_all add: CanonicalMIMEHeaderKey_def)
  moreover have "canonicalMIMEHeaderKey True s = canonicalMIMEHeaderKey True t"
    using canonical_cong_lower [of True s] canonical_cong_lower [of True t] eq by simp
  ultimately show ?thesis by simp
qed

text \<open>Canonical keys are fixed points: filing a key twice changes nothing.\<close>

lemma Canonical_idem:
  "CanonicalMIMEHeaderKey (CanonicalMIMEHeaderKey s) = CanonicalMIMEHeaderKey s"
proof (cases "list_all validHeaderFieldByte s")
  case True
  have "sameNameIgnoringCase (CanonicalMIMEHeaderKey (CanonicalMIMEHeaderKey s)) s"
    by (simp add: sameNameIgnoringCase_def lower_Canonical)
  from Canonical_case_variant [OF True this] show ?thesis .
next
  case False
  then show ?thesis by (simp add: CanonicalMIMEHeaderKey_def)
qed

text \<open>
  \<^verbatim>\<open>Add\<close> and \<^verbatim>\<open>Set\<close> keep the keys of a header map canonical, and a map with canonical
  keys holds a well-formed name under one spelling only.
\<close>

lemma canonical_keys_empty: "canonical_keys Map.empty"
  by (simp add: canonical_keys_def)

lemma canonical_keys_Add: "canonical_keys h \<Longrightarrow> canonical_keys (Header_Add h key v)"
  by (simp add: canonical_keys_def Header_Add_def Let_def Canonical_idem)

lemma canonical_keys_Set: "canonical_keys h \<Longrightarrow> canonical_keys (Header_Set h key v)"
  by (simp add: canonical_keys_def Header_Set_def Canonical_idem)

lemma canonical_keys_one_spelling:
  assumes "canonical_keys h" and "k \<in> dom h"
    and "list_all validHeaderFieldByte name" and "sameNameIgnoringCase k name"
  shows "k = CanonicalMIMEHeaderKey name"
proof -
  from assms have "CanonicalMIMEHeaderKey k = k"
    by (simp add: canonical_keys_def)
  with Canonical_case_variant [of name k] assms show ?thesis
    by simp
qed

section \<open>Facts about the header loops\<close>

lemma copyValues_User_Agent:
  "copyValues ''User-Agent'' vs h =
     (if vs = [] then h else h(''User-Agent'' \<mapsto> [''MyCustomUserAgent'']))"
  by (induction vs arbitrary: h) (simp_all add: Header_Set_def canonical_User_Agent)

lemma copyValues_other_key:
  "name \<noteq> ''User-Agent'' \<Longrightarrow> CanonicalMIMEHeaderKey name \<noteq> k \<Longrightarrow>
   copyValues name vs h k = h k"
  by (induction vs arbitrary: h) (simp_all add: Header_Add_def Let_def)

lemma copyValues_append:
  "name \<noteq> ''User-Agent'' \<Longrightarrow>
   copyValues name vs h =
     (if vs = [] then h
      else h(CanonicalMIMEHeaderKey name \<mapsto> values_of h (CanonicalMIMEHeaderKey name) @ vs))"
  by (induction vs arbitrary: h) (simp_all add: Header_Add_def Let_def values_of_def)

lemma copyValues_dom:
  "dom (copyValues name vs h) \<subseteq> insert (CanonicalMIMEHeaderKey name) (dom h)"
  by (cases "name = ''User-Agent''")
    (auto simp add: copyValues_User_Agent copyValues_append canonical_User_Agent
      split: if_splits)

lemma copyHeader_dom:
  "dom (copyHeader src names h) \<subseteq> dom h \<union> CanonicalMIMEHeaderKey ` set names"
proof (induction names arbitrary: h)
  case Nil
  then show ?case by simp
next
  case (Cons name names)
  from Cons [of "copyValues name (values_of src name) h"]
    copyValues_dom [of name "values_of src name" h]
  show ?case by auto
qed

lemma transformHeader_apply:
  "transformHeader src names h k =
     (if k = ''X-Added-Header'' then Some [''HeaderValue'']
      else copyHeader src names h k)"
  by (simp add: transformHeader_def Header_Set_def canonical_X_Added_Header)

lemma transformHeader_dom:
  assumes "transformHeader src names Map.empty k \<noteq> None"
  shows "\<exists>k'. k = CanonicalMIMEHeaderKey k'"
proof (cases "k = ''X-Added-Header''")
  case True
  then show ?thesis
    using canonical_X_Added_Header by metis
next
  case False
  with assms have "k \<in> dom (copyHeader src names Map.empty)"
    by (simp add: transformHeader_apply dom_def)
  with copyHeader_dom [of src names Map.empty]
  have "k \<in> CanonicalMIMEHeaderKey ` set names" by auto
  then show ?thesis by blast
qed

lemma copyHeader_User_Agent:
  assumes "\<forall>k \<in> set names. src k \<noteq> None \<and> CanonicalMIMEHeaderKey k = ''User-Agent''
             \<longrightarrow> k = ''User-Agent''"
  shows "copyHeader src names h ''User-Agent'' =
     (if ''User-Agent'' \<in> set names \<and> values_of src ''User-Agent'' \<noteq> []
      then Some [''MyCustomUserAgent''] else h ''User-Agent'')"
  using assms
proof (induction names arbitrary: h)
  case Nil
  then show ?case by simp
next
  case (Cons name names)
  show ?case
  proof (cases "name = ''User-Agent''")
    case True
    with Cons show ?thesis by (simp add: copyValues_User_Agent)
  next
    case False
    have "copyValues name (values_of src name) h ''User-Agent'' = h ''User-Agent''"
    proof (cases "src name")
      case None
      then show ?thesis by (simp add: values_of_def)
    next
      case (Some vs)
      with Cons.prems False have "CanonicalMIMEHeaderKey name \<noteq> ''User-Agent''" by auto
      with False show ?thesis by (rule copyValues_other_key)
    qed
    with Cons False show ?thesis by simp
  qed
qed

text \<open>
  What the loop leaves under a key other than \<open>User-Agent\<close>: the values of every inbound
  key filed under it, in the order of the visit.
\<close>

lemma copyHeader_values:
  assumes "K \<noteq> ''User-Agent''"
  shows "values_of (copyHeader src names h) K =
     values_of h K @
     concat (map (values_of src)
       (filter (\<lambda>n. n \<noteq> ''User-Agent'' \<and> CanonicalMIMEHeaderKey n = K) names))"
proof (induction names arbitrary: h)
  case Nil
  then show ?case by simp
next
  case (Cons name names)
  let ?h = "copyValues name (values_of src name) h"
  have step: "values_of ?h K =
      values_of h K @
      (if name \<noteq> ''User-Agent'' \<and> CanonicalMIMEHeaderKey name = K
       then values_of src name else [])"
  proof (cases "name = ''User-Agent''")
    case True
    with assms show ?thesis
      by (simp add: copyValues_User_Agent values_of_def)
  next
    case False
    then show ?thesis
      by (simp add: copyValues_append values_of_def)
  qed
  show ?case
    using Cons [of ?h] step by simp
qed

section \<open>Facts about logging and the handler\<close>

lemma logValues_entries:
  "logValues format name vs logger =
     logger @ map (\<lambda>v. (format, [String name, String v])) vs"
  by (induction vs arbitrary: logger) (simp_all add: Printf_def)

lemma logHeader_entries:
  "logHeader format h names logger =
     logger @ concat (map (\<lambda>name. map (\<lambda>v. (format, [String name, String v]))
                                     (values_of h name)) names)"
  by (induction names arbitrary: logger) (simp_all add: logValues_entries)

lemma logRequest_read:
  assumes "Request.Body r = Reader bs None"
  shows "logRequest r names logger =
     (r\<lparr>Request.Body := Reader bs None\<rparr>,
      logger @ [(''Request: %s %s'', [String (Method r), URL_arg (URL r)])]
        @ concat (map (\<lambda>name. map (\<lambda>v. (''Request Header: %s: %s'', [String name, String v]))
                                     (values_of (Request.Header r) name)) names)
        @ [(''Request Body: %s'', [Bytes bs])])"
  using assms
  by (simp add: logRequest_def logHeader_entries Printf_def NopCloser_NewBuffer_def)

lemma logRequest_read_failed:
  assumes "Request.Body r = Reader bs (Some e)"
  shows "logRequest r names logger =
     (r\<lparr>Request.Body := Reader [] (Some e)\<rparr>,
      logger @ [(''Request: %s %s'', [String (Method r), URL_arg (URL r)])]
        @ concat (map (\<lambda>name. map (\<lambda>v. (''Request Header: %s: %s'', [String name, String v]))
                                     (values_of (Request.Header r) name)) names)
        @ [(''Failed to read request body: %v'', [Error_arg e])])"
  using assms
  by (simp add: logRequest_def logHeader_entries Printf_def)



lemma proxyRequest_Body:
  "proxyRequest r target names = Inr p \<Longrightarrow> Request.Body p = Request.Body r"
  by (auto simp add: proxyRequest_def http_NewRequest_def Let_def split: sum.splits if_splits)

text \<open>
  The header of the request that the handler builds is the transformed header of the
  inbound request, started from the empty map.
\<close>

lemma proxyRequest_Header:
  "proxyRequest r target names = Inr p \<Longrightarrow>
   Request.Header p = transformHeader (Request.Header r) names Map.empty"
  by (auto simp add: proxyRequest_def http_NewRequest_def Let_def split: sum.splits if_splits)

text \<open>\<^verbatim>\<open>http.Error\<close> with the status 500 does not panic, so the error exits return.\<close>

lemma http_Error_500_returns:
  "http_Error w0 msg 500 = Inr (projr (http_Error w0 msg 500))"
  by (simp add: http_Error_def WriteHeader_def Let_def)

lemma reportError_returns:
  "reportError s msg format err =
     s\<lparr>writer := projr (http_Error (writer s) msg 500),
       errorLogger := Printf (errorLogger s) format [Error_arg err]\<rparr>"
proof (cases "http_Error (writer s) msg 500")
  case (Inl p)
  with http_Error_500_returns [of "writer s" msg] show ?thesis
    by simp
next
  case (Inr w')
  then show ?thesis
    by (simp add: reportError_def)
qed

lemma redirectHandler_invalid_target:
  assumes "url_Parse targetServer = Inl err"
  shows "redirectHandler upstream rg s0 r0 targetServer =
     s0\<lparr>requestLogger := snd (logRequest r0 (logRequest_order rg) (requestLogger s0)),
        writer := projr (http_Error (writer s0) ''Invalid target server URL'' 500),
        errorLogger :=
          Printf (errorLogger s0) ''Invalid target server URL: %v'' [Error_arg err]\<rparr>"
  proof -
  obtain r reqLog where "logRequest r0 (logRequest_order rg) (requestLogger s0) = (r, reqLog)"
    by (cases "logRequest r0 (logRequest_order rg) (requestLogger s0)")
  with assms show ?thesis
    by (simp add: redirectHandler_def client_Do_def reportError_returns)
qed

lemma redirectHandler_no_request:
  assumes "url_Parse targetServer = Inr target"
    and "proxyRequest (fst (logRequest r0 (logRequest_order rg) (requestLogger s0))) target
           (copy_order rg) = Inl err"
  shows "redirectHandler upstream rg s0 r0 targetServer =
     s0\<lparr>requestLogger := snd (logRequest r0 (logRequest_order rg) (requestLogger s0)),
        writer := projr (http_Error (writer s0) ''Failed to create request'' 500),
        errorLogger :=
          Printf (errorLogger s0) ''Failed to create request: %v'' [Error_arg err]\<rparr>"
  proof -
  obtain r reqLog where "logRequest r0 (logRequest_order rg) (requestLogger s0) = (r, reqLog)"
    by (cases "logRequest r0 (logRequest_order rg) (requestLogger s0)")
  with assms show ?thesis
    by (simp add: redirectHandler_def client_Do_def reportError_returns)
qed

lemma redirectHandler_dispatch_failed:
  assumes "url_Parse targetServer = Inr target"
    and "proxyRequest (fst (logRequest r0 (logRequest_order rg) (requestLogger s0))) target
           (copy_order rg) = Inr proxyReq"
    and "upstream (length (dispatched s0)) proxyReq = Inl err"
  shows "redirectHandler upstream rg s0 r0 targetServer =
     s0\<lparr>requestLogger := snd (logRequest r0 (logRequest_order rg) (requestLogger s0)),
        dispatched := dispatched s0 @ [proxyReq],
        writer := projr (http_Error (writer s0) ''Failed to connect to server'' 500),
        errorLogger :=
          Printf (errorLogger s0) ''Failed to connect to server: %v'' [Error_arg err]\<rparr>"
  proof -
  obtain r reqLog where "logRequest r0 (logRequest_order rg) (requestLogger s0) = (r, reqLog)"
    by (cases "logRequest r0 (logRequest_order rg) (requestLogger s0)")
  with assms show ?thesis
    by (simp add: redirectHandler_def client_Do_def reportError_returns)
qed

lemma redirectHandler_relayed:
  assumes "url_Parse targetServer = Inr target"
    and "proxyRequest (fst (logRequest r0 (logRequest_order rg) (requestLogger s0))) target
           (copy_order rg) = Inr proxyReq"
    and "upstream (length (dispatched s0)) proxyReq = Inr resp"
  shows "redirectHandler upstream rg s0 r0 targetServer =
     relayResponse (fst (logResponse resp (logResponse_order rg) (responseLogger s0)))
       (relay_order rg)
       (s0\<lparr>requestLogger := snd (logRequest r0 (logRequest_order rg) (requestLogger s0)),
           dispatched := dispatched s0 @ [proxyReq],
           responseLogger := snd (logResponse resp (logResponse_order rg) (responseLogger s0))\<rparr>)"
  proof -
  obtain r reqLog where "logRequest r0 (logRequest_order rg) (requestLogger s0) = (r, reqLog)"
    by (cases "logRequest r0 (logRequest_order rg) (requestLogger s0)")
  moreover obtain resp' respLog
    where "logResponse resp (logResponse_order rg) (responseLogger s0) = (resp', respLog)"
    by (cases "logResponse resp (logResponse_order rg) (responseLogger s0)")
  ultimately show ?thesis
    using assms by (simp add: redirectHandler_def client_Do_def)
qed

lemma relayResponse_unchanged:
  "dispatched (relayResponse resp keys s) = dispatched s"
  "requestLogger (relayResponse resp keys s) = requestLogger s"
  "responseLogger (relayResponse resp keys s) = responseLogger s"
  by (simp_all add: relayResponse_def Let_def split: prod.splits option.splits sum.splits)

lemma http_Error_sent:
  assumes "sentStatus w0 = None"
  shows "sentStatus (projr (http_Error w0 msg 500)) = Some 500"
    and "sentBody (projr (http_Error w0 msg 500)) = sentBody w0 @ msg @ [CHR 0x0A]"
  using assms by (simp_all add: http_Error_def Write_def WriteHeader_def Let_def)





lemma redirectHandler_dispatched:
  assumes "url_Parse targetServer = Inr target"
    and "proxyRequest (fst (logRequest r0 (logRequest_order rg) (requestLogger s0))) target
           (copy_order rg) = Inr proxyReq"
  shows "dispatched (redirectHandler upstream rg s0 r0 targetServer) =
     dispatched s0 @ [proxyReq]"
proof (cases "upstream (length (dispatched s0)) proxyReq")
  case (Inl err)
  from redirectHandler_dispatch_failed [where upstream = upstream, OF assms this] show ?thesis by simp
next
  case (Inr resp)
  from redirectHandler_relayed [where upstream = upstream, OF assms this] show ?thesis
    by (simp add: relayResponse_unchanged)
qed

text \<open>The handler hands at most one request to \<^verbatim>\<open>client.Do\<close>: the one it has built.\<close>

lemma redirectHandler_dispatched_cases:
  "dispatched (redirectHandler upstream rg s0 r0 targetServer) = dispatched s0
   \<or> (\<exists>target proxyReq.
         url_Parse targetServer = Inr target
         \<and> proxyRequest (fst (logRequest r0 (logRequest_order rg) (requestLogger s0))) target
              (copy_order rg) = Inr proxyReq
         \<and> dispatched (redirectHandler upstream rg s0 r0 targetServer)
             = dispatched s0 @ [proxyReq])"
proof (cases "url_Parse targetServer")
  case (Inl err)
  from redirectHandler_invalid_target [where upstream = upstream, OF this] show ?thesis
    by simp
next
  case parsed: (Inr target)
  show ?thesis
  proof (cases "proxyRequest (fst (logRequest r0 (logRequest_order rg) (requestLogger s0)))
      target (copy_order rg)")
    case (Inl err)
    from redirectHandler_no_request [where upstream = upstream, OF parsed this] show ?thesis
      by simp
  next
    case (Inr proxyReq)
    with parsed redirectHandler_dispatched [where upstream = upstream, OF parsed Inr]
    show ?thesis by blast
  qed
qed

lemma redirectHandler_requestLogger:
  "requestLogger (redirectHandler upstream rg s0 r0 targetServer) =
     snd (logRequest r0 (logRequest_order rg) (requestLogger s0))"
proof (cases "url_Parse targetServer")
  case (Inl err)
  from redirectHandler_invalid_target [OF this] show ?thesis by simp
next
  case parsed: (Inr target)
  show ?thesis
  proof (cases "proxyRequest (fst (logRequest r0 (logRequest_order rg) (requestLogger s0)))
      target (copy_order rg)")
    case (Inl err)
    from redirectHandler_no_request [OF parsed this] show ?thesis by simp
  next
    case built: (Inr proxyReq)
    show ?thesis
    proof (cases "upstream (length (dispatched s0)) proxyReq")
      case (Inl err)
      from redirectHandler_dispatch_failed [where upstream = upstream, OF parsed built this]
      show ?thesis by simp
    next
      case (Inr resp)
      from redirectHandler_relayed [where upstream = upstream, OF parsed built this]
      show ?thesis by (simp add: relayResponse_unchanged)
    qed
  qed
qed



section \<open>The examples, evaluated\<close>

lemma example_target: "url_Parse ''http://api.example.com/base'' =
    Inr (new_URL\<lparr>Scheme := ''http'', Host := ''api.example.com'', Path := ''/base''\<rparr>)"
  by code_simp

lemma example_logRequest:
  "fst (logRequest example_request names logger) = example_request"
  using logRequest_read [of example_request "''payload''" names logger]
  by (simp add: example_request_def)

lemma example_resolved:
  "URL_String (ResolveReference
      (new_URL\<lparr>Scheme := ''http'', Host := ''api.example.com'', Path := ''/base''\<rparr>)
      (new_URL\<lparr>Path := ''/v1/items'', RawQuery := ''x=1''\<rparr>))
   = ''http://api.example.com/v1/items?x=1''"
  by code_simp

lemma example_reparsed:
  "url_Parse ''http://api.example.com/v1/items?x=1'' =
     Inr (new_URL\<lparr>Scheme := ''http'', Host := ''api.example.com'', Path := ''/v1/items'',
                    RawQuery := ''x=1''\<rparr>)"
  by code_simp

lemma example_method: "validMethod ''POST''"
  by code_simp

lemma example_host: "removeEmptyPort ''api.example.com'' = ''api.example.com''"
  by code_simp

lemma example_proxy:
  "proxyRequest example_request
     (new_URL\<lparr>Scheme := ''http'', Host := ''api.example.com'', Path := ''/base''\<rparr>)
     [''User-Agent'', ''Accept''] = Inr example_proxyRequest"
  by (simp add: proxyRequest_def http_NewRequest_def example_request_def example_proxyRequest_def
      example_resolved example_reparsed example_method example_host)

lemma tagged_proxy:
  "proxyRequest tagged_request
     (new_URL\<lparr>Scheme := ''http'', Host := ''api.example.com'', Path := ''/base''\<rparr>)
     [''x-added-header'', ''X-Added-Header'']
   = Inr (example_proxyRequest
            \<lparr>Request.Header :=
               transformHeader (Request.Header tagged_request)
                 [''x-added-header'', ''X-Added-Header''] Map.empty\<rparr>)"
  by (simp add: proxyRequest_def http_NewRequest_def tagged_request_def example_request_def
      example_proxyRequest_def example_resolved example_reparsed example_method example_host)

lemma example_proxy_logged:
  "proxyRequest
     (fst (logRequest example_request (logRequest_order example_ranges)
             (requestLogger example_world)))
     (new_URL\<lparr>Scheme := ''http'', Host := ''api.example.com'', Path := ''/base''\<rparr>)
     (copy_order example_ranges) = Inr example_proxyRequest"
  by (simp add: example_logRequest example_proxy example_ranges_def)

lemma failing_logRequest:
  "logRequest failing_request names logger =
     (failing_request\<lparr>Request.Body := Reader [] (Some (net_Error ''unexpected EOF''))\<rparr>,
      logger
      @ [(''Request: %s %s'', [String (Method failing_request), URL_arg (URL failing_request)])]
      @ concat (map (\<lambda>name. map (\<lambda>v. (''Request Header: %s: %s'', [String name, String v]))
                               (values_of (Request.Header failing_request) name)) names)
      @ [(''Failed to read request body: %v'', [Error_arg (net_Error ''unexpected EOF'')])])"
  by (rule logRequest_read_failed) (simp add: failing_request_def)

lemma failing_proxy:
  "proxyRequest
     (fst (logRequest failing_request (logRequest_order example_ranges)
             (requestLogger example_world)))
     (new_URL\<lparr>Scheme := ''http'', Host := ''api.example.com'', Path := ''/base''\<rparr>)
     (copy_order example_ranges) = Inr failing_proxyRequest"
  by (simp add: failing_logRequest)
    (simp add: proxyRequest_def http_NewRequest_def failing_request_def example_request_def
      failing_proxyRequest_def example_proxyRequest_def example_ranges_def
      example_resolved example_reparsed example_method example_host)

section \<open>Claims about the header transformation\<close>

text \<open>
  Claim C1 (amended). Let the inbound header map hold the name \<open>User-Agent\<close> under
  that spelling only (as every map with canonical keys does, by
  \<open>canonical_keys_one_spelling\<close>: Go's server files each spelling received on the wire
  under the canonical key), and let the loop visit every key of the map once. If the map
  holds at least one \<open>User-Agent\<close> value, the header of the outbound request holds exactly
  the one value \<open>MyCustomUserAgent\<close> under \<open>User-Agent\<close>; if it holds none, the
  transformation sets no \<open>User-Agent\<close> header at all. In both cases no other key of the
  outbound header is a case variant of \<open>User-Agent\<close>.
\<close>

theorem C1_user_agent_override:
  assumes order: "range_order src names"
    and spelling: "\<forall>k \<in> dom src. sameNameIgnoringCase k ''User-Agent'' \<longrightarrow> k = ''User-Agent''"
  shows "transformHeader src names Map.empty ''User-Agent'' =
           (if values_of src ''User-Agent'' = [] then None else Some [''MyCustomUserAgent''])
         \<and> (\<forall>k. k \<noteq> ''User-Agent'' \<and> sameNameIgnoringCase k ''User-Agent''
               \<longrightarrow> transformHeader src names Map.empty k = None)"
proof
  have only: "\<forall>k \<in> set names. src k \<noteq> None \<and> CanonicalMIMEHeaderKey k = ''User-Agent''
      \<longrightarrow> k = ''User-Agent''"
  proof (intro ballI impI)
    fix k
    assume "k \<in> set names" and k: "src k \<noteq> None \<and> CanonicalMIMEHeaderKey k = ''User-Agent''"
    then have "k \<in> dom src" by (simp add: dom_def)
    moreover have "map lowerByte k = map lowerByte ''User-Agent''"
      using lower_Canonical [of k] k by simp
    ultimately show "k = ''User-Agent''"
      using spelling by (simp add: sameNameIgnoringCase_def)
  qed
  have mem: "''User-Agent'' \<in> set names \<longleftrightarrow> src ''User-Agent'' \<noteq> None"
    using order by (auto simp add: range_order_def)
  have "values_of src ''User-Agent'' \<noteq> [] \<Longrightarrow> src ''User-Agent'' \<noteq> None"
    by (cases "src ''User-Agent''") (simp_all add: values_of_def)
  with mem copyHeader_User_Agent [OF only, of Map.empty]
  show "transformHeader src names Map.empty ''User-Agent'' =
      (if values_of src ''User-Agent'' = [] then None else Some [''MyCustomUserAgent''])"
    by (auto simp add: transformHeader_apply)
next
  show "\<forall>k. k \<noteq> ''User-Agent'' \<and> sameNameIgnoringCase k ''User-Agent''
      \<longrightarrow> transformHeader src names Map.empty k = None"
  proof (intro allI impI, rule ccontr)
    fix k
    assume k: "k \<noteq> ''User-Agent'' \<and> sameNameIgnoringCase k ''User-Agent''"
      and "transformHeader src names Map.empty k \<noteq> None"
    then obtain k' where k': "k = CanonicalMIMEHeaderKey k'"
      using transformHeader_dom by blast
    have "list_all validHeaderFieldByte ''User-Agent''" by code_simp
    from Canonical_case_variant [OF this, of k'] k k'
    show False by (simp add: canonical_User_Agent)
  qed
qed

theorem C1_user_agent_override_witness:
  "range_order [''Accept'' \<mapsto> [''*/*''], ''User-Agent'' \<mapsto> [''curl/8.0'', ''Mozilla/5.0'']]
     [''User-Agent'', ''Accept'']
   \<and> transformHeader
        [''Accept'' \<mapsto> [''*/*''], ''User-Agent'' \<mapsto> [''curl/8.0'', ''Mozilla/5.0'']]
        [''User-Agent'', ''Accept''] Map.empty ''User-Agent'' = Some [''MyCustomUserAgent'']"
proof -
  let ?src = "[''Accept'' \<mapsto> [''*/*''], ''User-Agent'' \<mapsto> [''curl/8.0'', ''Mozilla/5.0'']]"
  let ?names = "[''User-Agent'', ''Accept'']"
  have order: "range_order ?src ?names"
    by (auto simp add: range_order_def)
  have "sameNameIgnoringCase ''Accept'' ''User-Agent'' = False"
    by (simp add: sameNameIgnoringCase_def)
  then have spelling:
    "\<forall>k \<in> dom ?src. sameNameIgnoringCase k ''User-Agent'' \<longrightarrow> k = ''User-Agent''"
    by simp
  from C1_user_agent_override [OF order spelling] order
  show ?thesis by (simp add: values_of_def)
qed

text \<open>
  Claim C1 as stated fails: a request that carries no \<open>User-Agent\<close> value leaves the
  loop without a \<open>User-Agent\<close> header, and a map key spelled \<open>user-agent\<close> is not equal
  to \<open>User-Agent\<close>, so its value is copied instead of replaced.
\<close>

theorem C1_counterexample:
  "transformHeader Map.empty [] Map.empty ''User-Agent'' = None
   \<and> transformHeader [''user-agent'' \<mapsto> [''curl/8.0'']] [''user-agent''] Map.empty ''User-Agent''
       = Some [''curl/8.0'']"
  by (simp add: transformHeader_apply Header_Add_def values_of_def
      canonical_user_agent_lower)

text \<open>
  Claim C2. Whatever the inbound request holds and in whatever order its header map is
  visited, the request that the handler builds (\<open>proxyRequest\<close>) holds under
  \<open>X-Added-Header\<close> exactly the one value \<open>HeaderValue\<close>, and no other key of its header is
  a case variant of \<open>X-Added-Header\<close>: values that the inbound request supplied under that
  name, in any spelling, are replaced. The same holds of every request that a call of the
  handler hands to \<^verbatim>\<open>client.Do\<close>.
\<close>

theorem C2_added_header_exactly_once:
  "(proxyRequest r target names = Inr proxyReq \<longrightarrow>
      Request.Header proxyReq ''X-Added-Header'' = Some [''HeaderValue'']
      \<and> (\<forall>k. k \<noteq> ''X-Added-Header'' \<and> sameNameIgnoringCase k ''X-Added-Header''
            \<longrightarrow> Request.Header proxyReq k = None))
   \<and> (\<forall>q \<in> set (drop (length (dispatched s))
                   (dispatched (redirectHandler upstream rg s r targetServer))).
         Request.Header q ''X-Added-Header'' = Some [''HeaderValue'']
         \<and> (\<forall>k. k \<noteq> ''X-Added-Header'' \<and> sameNameIgnoringCase k ''X-Added-Header''
               \<longrightarrow> Request.Header q k = None))"
proof -
  have built: "Request.Header p ''X-Added-Header'' = Some [''HeaderValue'']
      \<and> (\<forall>k. k \<noteq> ''X-Added-Header'' \<and> sameNameIgnoringCase k ''X-Added-Header''
            \<longrightarrow> Request.Header p k = None)"
    if p: "proxyRequest r' target' names' = Inr p" for r' target' names' p
  proof
    from p have header:
      "Request.Header p = transformHeader (Request.Header r') names' Map.empty"
      by (rule proxyRequest_Header)
    then show "Request.Header p ''X-Added-Header'' = Some [''HeaderValue'']"
      by (simp add: transformHeader_apply)
    show "\<forall>k. k \<noteq> ''X-Added-Header'' \<and> sameNameIgnoringCase k ''X-Added-Header''
        \<longrightarrow> Request.Header p k = None"
    proof (intro allI impI, rule ccontr)
      fix k
      assume k: "k \<noteq> ''X-Added-Header'' \<and> sameNameIgnoringCase k ''X-Added-Header''"
        and "Request.Header p k \<noteq> None"
      with header obtain k' where k': "k = CanonicalMIMEHeaderKey k'"
        using transformHeader_dom by metis
      have "list_all validHeaderFieldByte ''X-Added-Header''" by code_simp
      from Canonical_case_variant [OF this, of k'] k k'
      show False by (simp add: canonical_X_Added_Header)
    qed
  qed
  show ?thesis
  proof (intro conjI impI ballI)
    assume "proxyRequest r target names = Inr proxyReq"
    from built [OF this]
    show "Request.Header proxyReq ''X-Added-Header'' = Some [''HeaderValue'']"
      and "\<forall>k. k \<noteq> ''X-Added-Header'' \<and> sameNameIgnoringCase k ''X-Added-Header''
        \<longrightarrow> Request.Header proxyReq k = None"
      by blast+
  next
    fix q
    assume q: "q \<in> set (drop (length (dispatched s))
        (dispatched (redirectHandler upstream rg s r targetServer)))"
    from redirectHandler_dispatched_cases [of upstream rg s r targetServer] q
    obtain target' where
      "proxyRequest (fst (logRequest r (logRequest_order rg) (requestLogger s))) target'
         (copy_order rg) = Inr q"
      by auto
    from built [OF this]
    show "Request.Header q ''X-Added-Header'' = Some [''HeaderValue'']"
      and "\<forall>k. k \<noteq> ''X-Added-Header'' \<and> sameNameIgnoringCase k ''X-Added-Header''
        \<longrightarrow> Request.Header q k = None"
      by blast+
  qed
qed

theorem C2_added_header_exactly_once_witness:
  "sameNameIgnoringCase ''x-added-header'' ''X-Added-Header''
   \<and> map_sum id
        (\<lambda>p. (Request.Header p ''X-Added-Header'', Request.Header p ''x-added-header''))
        (proxyRequest tagged_request
           (new_URL\<lparr>Scheme := ''http'', Host := ''api.example.com'', Path := ''/base''\<rparr>)
           [''x-added-header'', ''X-Added-Header''])
       = Inr (Some [''HeaderValue''], None)
   \<and> map (\<lambda>q. Request.Header q ''X-Added-Header'')
        (dispatched (redirectHandler example_upstream example_ranges example_world
           example_request ''http://api.example.com/base''))
       = [Some [''HeaderValue'']]"
proof -
  define p where "p = example_proxyRequest
      \<lparr>Request.Header :=
         transformHeader (Request.Header tagged_request)
           [''x-added-header'', ''X-Added-Header''] Map.empty\<rparr>"
  have built: "proxyRequest tagged_request
      (new_URL\<lparr>Scheme := ''http'', Host := ''api.example.com'', Path := ''/base''\<rparr>)
      [''x-added-header'', ''X-Added-Header''] = Inr p"
    unfolding p_def by (rule tagged_proxy)
  have same: "sameNameIgnoringCase ''x-added-header'' ''X-Added-Header''"
    by code_simp
  have sent: "dispatched (redirectHandler example_upstream example_ranges example_world
      example_request ''http://api.example.com/base'') = [example_proxyRequest]"
    using redirectHandler_dispatched
      [where upstream = example_upstream, OF example_target example_proxy_logged]
    by (simp add: example_world_def)
  have none: "dispatched example_world = []"
    by (simp add: example_world_def)
  note first = C2_added_header_exactly_once [THEN conjunct1, THEN mp, OF built]
  from first have one: "Request.Header p ''X-Added-Header'' = Some [''HeaderValue'']"
    by (rule conjunct1)
  from first [THEN conjunct2, THEN spec, of "''x-added-header''"] same
  have other: "Request.Header p ''x-added-header'' = None"
    by simp
  note second = C2_added_header_exactly_once
    [where r = example_request and upstream = example_upstream and rg = example_ranges
      and s = example_world and targetServer = "''http://api.example.com/base''",
      THEN conjunct2]
  from second have handed:
    "Request.Header example_proxyRequest ''X-Added-Header'' = Some [''HeaderValue'']"
    unfolding sent none by simp
  from same one other handed show ?thesis
    unfolding built sent by simp
qed

text \<open>
  Claim C10. The loop replaces the values of a key exactly when the key is the string
  \<open>User-Agent\<close>. For every other key, the inner loop appends each value, unchanged and
  in order, to the values the outbound header already holds under the canonical form of
  the key; and after the whole loop, the outbound header holds under a key \<open>K\<close> other than
  \<open>User-Agent\<close> all values of all inbound keys other than \<open>User-Agent\<close> that are filed under
  \<open>K\<close>, in the order of the visit, none dropped and none merged.
\<close>

theorem C10_override_by_exact_key:
  "copyValues name vs h =
     (if vs = [] then h
      else if name = ''User-Agent'' then h(''User-Agent'' \<mapsto> [''MyCustomUserAgent''])
      else h(CanonicalMIMEHeaderKey name \<mapsto> values_of h (CanonicalMIMEHeaderKey name) @ vs))
   \<and> (K \<noteq> ''User-Agent'' \<longrightarrow>
        values_of (copyHeader src names h) K =
          values_of h K @
          concat (map (values_of src)
            (filter (\<lambda>n. n \<noteq> ''User-Agent'' \<and> CanonicalMIMEHeaderKey n = K) names)))"
  using copyValues_User_Agent [of vs h] copyValues_append [of name vs h]
    copyHeader_values [of K src names h]
  by simp

theorem C10_override_by_exact_key_witness:
  "copyValues ''user-agent'' [''a'', ''a'', ''b''] [''User-Agent'' \<mapsto> [''z'']]
     = [''User-Agent'' \<mapsto> [''z'', ''a'', ''a'', ''b'']]
   \<and> ''Accept'' \<noteq> ''User-Agent''
   \<and> values_of
        (copyHeader [''accept'' \<mapsto> [''x'', ''x''], ''Accept'' \<mapsto> [''y'']] [''accept'', ''Accept'']
           [''User-Agent'' \<mapsto> [''z'']]) ''Accept''
       = [''x'', ''x'', ''y'']"
proof -
  have c: "CanonicalMIMEHeaderKey ''accept'' = ''Accept''"
    "CanonicalMIMEHeaderKey ''Accept'' = ''Accept''"
    by code_simp+
  from C10_override_by_exact_key
    [where name = "''user-agent''" and vs = "[''a'', ''a'', ''b'']"
      and h = "[''User-Agent'' \<mapsto> [''z'']]" and K = "''Accept''"
      and src = "[''accept'' \<mapsto> [''x'', ''x''], ''Accept'' \<mapsto> [''y'']]"
      and names = "[''accept'', ''Accept'']"]
  show ?thesis
    by (simp add: canonical_user_agent_lower values_of_def c)
qed

section \<open>Claims about logging\<close>



text \<open>
  Claim C8. \<^verbatim>\<open>logRequest\<close> adds to the request logger, in this order: one entry with the
  method and the URL; for each key in the order of the visit, one entry for each of its
  values, with the key and that value; and one last entry, which holds the bytes of the
  body when the body was read without error and the read error otherwise (then there is no
  entry for the body). The handler writes nothing else to the request logger, and after
  a failed read it goes on: when the target parses and the new request is built, the
  request is handed to \<^verbatim>\<open>client.Do\<close>.
\<close>

theorem C8_request_log_entries:
  "snd (logRequest r names logger) =
     logger
     @ [(''Request: %s %s'', [String (Method r), URL_arg (URL r)])]
     @ concat (map (\<lambda>name. map (\<lambda>v. (''Request Header: %s: %s'', [String name, String v]))
                              (values_of (Request.Header r) name)) names)
     @ [case Request.Body r of
          Reader bs None \<Rightarrow> (''Request Body: %s'', [Bytes bs])
        | Reader bs (Some e) \<Rightarrow> (''Failed to read request body: %v'', [Error_arg e])]
   \<and> requestLogger (redirectHandler upstream rg s r targetServer) =
       snd (logRequest r (logRequest_order rg) (requestLogger s))
   \<and> (\<forall>bs e target proxyReq.
         Request.Body r = Reader bs (Some e)
         \<and> url_Parse targetServer = Inr target
         \<and> proxyRequest (fst (logRequest r (logRequest_order rg) (requestLogger s))) target
              (copy_order rg) = Inr proxyReq
         \<longrightarrow> dispatched (redirectHandler upstream rg s r targetServer)
               = dispatched s @ [proxyReq])"
proof (intro conjI allI impI)
  show "snd (logRequest r names logger) =
     logger
     @ [(''Request: %s %s'', [String (Method r), URL_arg (URL r)])]
     @ concat (map (\<lambda>name. map (\<lambda>v. (''Request Header: %s: %s'', [String name, String v]))
                              (values_of (Request.Header r) name)) names)
     @ [case Request.Body r of
          Reader bs None \<Rightarrow> (''Request Body: %s'', [Bytes bs])
        | Reader bs (Some e) \<Rightarrow> (''Failed to read request body: %v'', [Error_arg e])]"
  proof (cases "Request.Body r")
    case (Reader bs e)
    then show ?thesis
      by (cases e) (simp_all add: logRequest_read logRequest_read_failed)
  qed
next
  show "requestLogger (redirectHandler upstream rg s r targetServer) =
      snd (logRequest r (logRequest_order rg) (requestLogger s))"
    by (rule redirectHandler_requestLogger)
next
  fix bs e target proxyReq
  assume "Request.Body r = Reader bs (Some e)
      \<and> url_Parse targetServer = Inr target
      \<and> proxyRequest (fst (logRequest r (logRequest_order rg) (requestLogger s))) target
           (copy_order rg) = Inr proxyReq"
  then show "dispatched (redirectHandler upstream rg s r targetServer)
      = dispatched s @ [proxyReq]"
    using redirectHandler_dispatched [where upstream = upstream] by blast
qed

theorem C8_request_log_entries_witness:
  "Request.Body failing_request = Reader ''pay'' (Some (net_Error ''unexpected EOF''))
   \<and> url_Parse ''http://api.example.com/base'' =
       Inr (new_URL\<lparr>Scheme := ''http'', Host := ''api.example.com'', Path := ''/base''\<rparr>)
   \<and> snd (logRequest example_request [''Accept'', ''User-Agent''] []) =
       [(''Request: %s %s'',
          [String ''POST'', URL_arg (new_URL\<lparr>Path := ''/v1/items'', RawQuery := ''x=1''\<rparr>)]),
        (''Request Header: %s: %s'', [String ''Accept'', String ''*/*'']),
        (''Request Header: %s: %s'', [String ''Accept'', String ''text/html'']),
        (''Request Header: %s: %s'', [String ''User-Agent'', String ''curl/8.0'']),
        (''Request Body: %s'', [Bytes ''payload''])]
   \<and> dispatched (redirectHandler example_upstream example_ranges example_world
        failing_request ''http://api.example.com/base'') = [failing_proxyRequest]"
proof -
  have body: "Request.Body failing_request = Reader ''pay'' (Some (net_Error ''unexpected EOF''))"
    by (simp add: failing_request_def)
  from C8_request_log_entries
    [where r = example_request and names = "[''Accept'', ''User-Agent'']" and logger = "[]"]
  have entries: "snd (logRequest example_request [''Accept'', ''User-Agent''] []) =
       [(''Request: %s %s'',
          [String ''POST'', URL_arg (new_URL\<lparr>Path := ''/v1/items'', RawQuery := ''x=1''\<rparr>)]),
        (''Request Header: %s: %s'', [String ''Accept'', String ''*/*'']),
        (''Request Header: %s: %s'', [String ''Accept'', String ''text/html'']),
        (''Request Header: %s: %s'', [String ''User-Agent'', String ''curl/8.0'']),
        (''Request Body: %s'', [Bytes ''payload''])]"
    by (simp add: example_request_def values_of_def)
  from C8_request_log_entries
    [where r = failing_request and upstream = example_upstream and rg = example_ranges
      and s = example_world and targetServer = "''http://api.example.com/base''"]
    body example_target failing_proxy
  have "dispatched (redirectHandler example_upstream example_ranges example_world
        failing_request ''http://api.example.com/base'') = dispatched example_world @ [failing_proxyRequest]"
    by blast
  with body example_target entries show ?thesis
    by (simp add: example_world_def)
qed

text \<open>
  Claim C9. When reading the body of the inbound request fails in \<^verbatim>\<open>logRequest\<close>, the
  request keeps its drained body in the failed state, no new stream over the bytes read
  is put in its place, and the last entry logged is the failure. The handler then builds
  the outbound request with that body, so that reading it yields no byte and the same
  error, and hands it to \<^verbatim>\<open>client.Do\<close>.
\<close>

theorem C9_failed_read_not_restored:
  assumes "Request.Body r = Reader bs (Some e)"
  shows "Request.Body (fst (logRequest r names logger)) = Reader [] (Some e)
         \<and> last (snd (logRequest r names logger))
             = (''Failed to read request body: %v'', [Error_arg e])
         \<and> (\<forall>target proxyReq.
               url_Parse targetServer = Inr target
               \<and> proxyRequest (fst (logRequest r (logRequest_order rg) (requestLogger s)))
                    target (copy_order rg) = Inr proxyReq
               \<longrightarrow> ReadAll (Request.Body proxyReq) = ([], Some e, Reader [] (Some e))
                   \<and> dispatched (redirectHandler upstream rg s r targetServer)
                       = dispatched s @ [proxyReq])"
proof (intro conjI allI impI)
  show "Request.Body (fst (logRequest r names logger)) = Reader [] (Some e)"
    using assms by (simp add: logRequest_read_failed)
next
  show "last (snd (logRequest r names logger))
      = (''Failed to read request body: %v'', [Error_arg e])"
    using assms by (simp add: logRequest_read_failed)
next
  fix target proxyReq
  assume path: "url_Parse targetServer = Inr target
      \<and> proxyRequest (fst (logRequest r (logRequest_order rg) (requestLogger s)))
           target (copy_order rg) = Inr proxyReq"
  then have "Request.Body proxyReq =
      Request.Body (fst (logRequest r (logRequest_order rg) (requestLogger s)))"
    using proxyRequest_Body by blast
  then show "ReadAll (Request.Body proxyReq) = ([], Some e, Reader [] (Some e))"
    using assms by (simp add: logRequest_read_failed)
next
  fix target proxyReq
  assume "url_Parse targetServer = Inr target
      \<and> proxyRequest (fst (logRequest r (logRequest_order rg) (requestLogger s)))
           target (copy_order rg) = Inr proxyReq"
  then show "dispatched (redirectHandler upstream rg s r targetServer)
      = dispatched s @ [proxyReq]"
    using redirectHandler_dispatched [where upstream = upstream] by blast
qed

theorem C9_failed_read_not_restored_witness:
  "Request.Body failing_request = Reader ''pay'' (Some (net_Error ''unexpected EOF''))
   \<and> url_Parse ''http://api.example.com/base'' =
       Inr (new_URL\<lparr>Scheme := ''http'', Host := ''api.example.com'', Path := ''/base''\<rparr>)
   \<and> Request.Body (fst (logRequest failing_request [''Accept'', ''User-Agent''] []))
       = Reader [] (Some (net_Error ''unexpected EOF''))
   \<and> ReadAll (Request.Body failing_proxyRequest)
       = ([], Some (net_Error ''unexpected EOF''), Reader [] (Some (net_Error ''unexpected EOF'')))
   \<and> dispatched (redirectHandler example_upstream example_ranges example_world
        failing_request ''http://api.example.com/base'') = [failing_proxyRequest]"
proof -
  have body: "Request.Body failing_request = Reader ''pay'' (Some (net_Error ''unexpected EOF''))"
    by (simp add: failing_request_def)
  note claim = C9_failed_read_not_restored
    [OF body, where upstream = example_upstream and rg = example_ranges
      and s = example_world and targetServer = "''http://api.example.com/base''"
      and names = "[''Accept'', ''User-Agent'']" and logger = "[]"]
  from claim have first:
    "Request.Body (fst (logRequest failing_request [''Accept'', ''User-Agent''] []))
       = Reader [] (Some (net_Error ''unexpected EOF''))"
    by blast
  from claim example_target failing_proxy have
    "ReadAll (Request.Body failing_proxyRequest)
       = ([], Some (net_Error ''unexpected EOF''), Reader [] (Some (net_Error ''unexpected EOF'')))
     \<and> dispatched (redirectHandler example_upstream example_ranges example_world
        failing_request ''http://api.example.com/base'')
       = dispatched example_world @ [failing_proxyRequest]"
    by blast
  with body example_target first show ?thesis
    by (simp add: example_world_def)
qed

section \<open>Claims about the handler\<close>

text \<open>
  Claim C4. The target \<^verbatim>\<open>http://api.example.com/base\<close> parses into scheme \<^verbatim>\<open>http\<close>, host
  \<^verbatim>\<open>api.example.com\<close> and path \<^verbatim>\<open>/base\<close>; resolving an inbound URL with path
  \<^verbatim>\<open>/v1/items\<close> and query \<^verbatim>\<open>x=1\<close> against it prints as
  \<^verbatim>\<open>http://api.example.com/v1/items?x=1\<close>; and the request that the handler builds for such
  an inbound request, whatever its header and body, has that URL: scheme and host of the
  target, path and query of the inbound request, the base path \<^verbatim>\<open>/base\<close> gone.
\<close>

theorem C4_effective_upstream_URL:
  "url_Parse ''http://api.example.com/base'' =
     Inr (new_URL\<lparr>Scheme := ''http'', Host := ''api.example.com'', Path := ''/base''\<rparr>)
   \<and> URL_String
        (ResolveReference
           (new_URL\<lparr>Scheme := ''http'', Host := ''api.example.com'', Path := ''/base''\<rparr>)
           (new_URL\<lparr>Path := ''/v1/items'', RawQuery := ''x=1''\<rparr>))
       = ''http://api.example.com/v1/items?x=1''
   \<and> map_sum id (\<lambda>p. (URL p, URL_String (URL p)))
        (proxyRequest
           \<lparr>Method = ''GET'', URL = new_URL\<lparr>Path := ''/v1/items'', RawQuery := ''x=1''\<rparr>,
            Header = h, Body = b\<rparr>
           (new_URL\<lparr>Scheme := ''http'', Host := ''api.example.com'', Path := ''/base''\<rparr>)
           names)
       = Inr (new_URL\<lparr>Scheme := ''http'', Host := ''api.example.com'',
                       Path := ''/v1/items'', RawQuery := ''x=1''\<rparr>,
              ''http://api.example.com/v1/items?x=1'')"
proof -
  have get: "validMethod ''GET''"
    by code_simp
  show ?thesis
    by (simp add: example_target example_resolved example_reparsed example_host get
        proxyRequest_def http_NewRequest_def; code_simp)
qed

theorem C4_effective_upstream_URL_witness:
  "map_sum id (\<lambda>p. URL_String (URL p))
     (proxyRequest (example_request\<lparr>Method := ''GET''\<rparr>)
        (new_URL\<lparr>Scheme := ''http'', Host := ''api.example.com'', Path := ''/base''\<rparr>)
        (copy_order example_ranges))
   = Inr ''http://api.example.com/v1/items?x=1''"
proof -
  have request: "example_request\<lparr>Method := ''GET''\<rparr> =
      \<lparr>Method = ''GET'', URL = new_URL\<lparr>Path := ''/v1/items'', RawQuery := ''x=1''\<rparr>,
       Header = Request.Header example_request, Body = Request.Body example_request\<rparr>"
    by (simp add: example_request_def)
  from C4_effective_upstream_URL
    [of "Request.Header example_request" "Request.Body example_request"
      "copy_order example_ranges"]
  have "map_sum id (\<lambda>p. (URL p, URL_String (URL p)))
      (proxyRequest (example_request\<lparr>Method := ''GET''\<rparr>)
        (new_URL\<lparr>Scheme := ''http'', Host := ''api.example.com'', Path := ''/base''\<rparr>)
        (copy_order example_ranges))
      = Inr (new_URL\<lparr>Scheme := ''http'', Host := ''api.example.com'',
                      Path := ''/v1/items'', RawQuery := ''x=1''\<rparr>,
             ''http://api.example.com/v1/items?x=1'')"
    unfolding request by blast
  then show ?thesis
    by (cases "proxyRequest (example_request\<lparr>Method := ''GET''\<rparr>)
        (new_URL\<lparr>Scheme := ''http'', Host := ''api.example.com'', Path := ''/base''\<rparr>)
        (copy_order example_ranges)") auto
qed




text \<open>
  Claim C6. When \<^verbatim>\<open>client.Do\<close> returns an error for the new request, the client is sent
  status 500 and the message \<^verbatim>\<open>Failed to connect to server\<close> (and a newline), the error
  logger gets exactly one more entry, which holds the error, nothing is written to the
  response logger, and the request has been handed to \<^verbatim>\<open>client.Do\<close> exactly once: there
  is no second attempt, even with an upstream that would accept one, as in the witness.
  The handler returns; it does not panic.
\<close>

theorem C6_upstream_failure:
  assumes parsed: "url_Parse targetServer = Inr target"
    and built: "proxyRequest (fst (logRequest r0 (logRequest_order rg) (requestLogger s0)))
                  target (copy_order rg) = Inr proxyReq"
    and failed: "upstream (length (dispatched s0)) proxyReq = Inl err"
    and unsent: "sentStatus (writer s0) = None"
  shows "sentStatus (writer (redirectHandler upstream rg s0 r0 targetServer)) = Some 500
         \<and> sentBody (writer (redirectHandler upstream rg s0 r0 targetServer))
             = sentBody (writer s0) @ ''Failed to connect to server'' @ [CHR 0x0A]
         \<and> errorLogger (redirectHandler upstream rg s0 r0 targetServer)
             = errorLogger s0 @ [(''Failed to connect to server: %v'', [Error_arg err])]
         \<and> dispatched (redirectHandler upstream rg s0 r0 targetServer)
             = dispatched s0 @ [proxyReq]
         \<and> responseLogger (redirectHandler upstream rg s0 r0 targetServer)
             = responseLogger s0
         \<and> panicked (redirectHandler upstream rg s0 r0 targetServer) = panicked s0"
  using redirectHandler_dispatch_failed [where upstream = upstream, OF parsed built failed]
    http_Error_sent [OF unsent]
  by (simp add: Printf_def)

theorem C6_upstream_failure_witness:
  "url_Parse ''http://api.example.com/base'' =
     Inr (new_URL\<lparr>Scheme := ''http'', Host := ''api.example.com'', Path := ''/base''\<rparr>)
   \<and> refusing_upstream 0 example_proxyRequest = Inl (net_Error ''connection refused'')
   \<and> refusing_upstream 1 example_proxyRequest = Inr example_response
   \<and> sentStatus (writer example_world) = None
   \<and> sentStatus (writer (redirectHandler refusing_upstream example_ranges example_world
        example_request ''http://api.example.com/base'')) = Some 500
   \<and> sentBody (writer (redirectHandler refusing_upstream example_ranges example_world
        example_request ''http://api.example.com/base''))
       = ''Failed to connect to server'' @ [CHR 0x0A]
   \<and> errorLogger (redirectHandler refusing_upstream example_ranges example_world
        example_request ''http://api.example.com/base'')
       = [(''Failed to connect to server: %v'', [Error_arg (net_Error ''connection refused'')])]
   \<and> dispatched (redirectHandler refusing_upstream example_ranges example_world
        example_request ''http://api.example.com/base'') = [example_proxyRequest]"
proof -
  have failed: "refusing_upstream (length (dispatched example_world)) example_proxyRequest
      = Inl (net_Error ''connection refused'')"
    by (simp add: refusing_upstream_def example_world_def)
  have unsent: "sentStatus (writer example_world) = None"
    by (simp add: example_world_def new_ResponseWriter_def)
  from C6_upstream_failure
    [where upstream = refusing_upstream,
      OF example_target example_proxy_logged failed unsent]
    example_target unsent
  show ?thesis
    by (simp add: refusing_upstream_def example_world_def new_ResponseWriter_def)
qed

text \<open>
  Claim C7. When \<^verbatim>\<open>url.Parse\<close> rejects the configured target, the client is sent status
  500 and the message \<^verbatim>\<open>Invalid target server URL\<close> (and a newline), the error logger gets
  exactly one more entry, which holds the parse error, and nothing else happens after the
  request has been logged: no request is handed to \<^verbatim>\<open>client.Do\<close> and nothing is written
  to the response logger. The handler returns; it does not panic.
\<close>

theorem C7_invalid_target:
  assumes invalid: "url_Parse targetServer = Inl err"
    and unsent: "sentStatus (writer s0) = None"
  shows "sentStatus (writer (redirectHandler upstream rg s0 r0 targetServer)) = Some 500
         \<and> sentBody (writer (redirectHandler upstream rg s0 r0 targetServer))
             = sentBody (writer s0) @ ''Invalid target server URL'' @ [CHR 0x0A]
         \<and> errorLogger (redirectHandler upstream rg s0 r0 targetServer)
             = errorLogger s0 @ [(''Invalid target server URL: %v'', [Error_arg err])]
         \<and> dispatched (redirectHandler upstream rg s0 r0 targetServer) = dispatched s0
         \<and> responseLogger (redirectHandler upstream rg s0 r0 targetServer)
             = responseLogger s0
         \<and> requestLogger (redirectHandler upstream rg s0 r0 targetServer)
             = snd (logRequest r0 (logRequest_order rg) (requestLogger s0))
         \<and> panicked (redirectHandler upstream rg s0 r0 targetServer) = panicked s0"
  using redirectHandler_invalid_target [where upstream = upstream, OF invalid]
    http_Error_sent [OF unsent]
  by (simp add: Printf_def)

theorem C7_invalid_target_witness:
  "url_Parse '':8080'' = Inl (url_Error ''parse'' '':8080'' (errorString ''missing protocol scheme''))
   \<and> sentStatus (writer example_world) = None
   \<and> sentStatus (writer (redirectHandler example_upstream example_ranges example_world
        example_request '':8080'')) = Some 500
   \<and> sentBody (writer (redirectHandler example_upstream example_ranges example_world
        example_request '':8080'')) = ''Invalid target server URL'' @ [CHR 0x0A]
   \<and> errorLogger (redirectHandler example_upstream example_ranges example_world
        example_request '':8080'')
       = [(''Invalid target server URL: %v'',
           [Error_arg (url_Error ''parse'' '':8080'' (errorString ''missing protocol scheme''))])]
   \<and> dispatched (redirectHandler example_upstream example_ranges example_world
        example_request '':8080'') = []"
proof -
  have invalid: "url_Parse '':8080'' =
      Inl (url_Error ''parse'' '':8080'' (errorString ''missing protocol scheme''))"
    by code_simp
  have unsent: "sentStatus (writer example_world) = None"
    by (simp add: example_world_def new_ResponseWriter_def)
  from C7_invalid_target [where upstream = example_upstream, OF invalid unsent] invalid unsent
  show ?thesis
    by (simp add: example_world_def new_ResponseWriter_def)
qed

end
